theory Spec2Isabelle
  imports Main "HOL-Library.Word" "HOL-Library.Log_Nat"
begin

unbundle bit_operations_syntax

section \<open>The C library functions the parser calls\<close>

text \<open>
  \<^verbatim>\<open>gcode-parser.c\<close> calls \<^verbatim>\<open>isspace\<close>, \<^verbatim>\<open>toupper\<close> and \<^verbatim>\<open>strtof\<close>. They are
  modelled here as ISO C defines them in the "C" locale.
\<close>

subsection \<open>Characters\<close>

definition NUL :: char where
  "NUL = CHR 0x00"

definition isspace :: "char \<Rightarrow> bool" where
  "isspace c \<longleftrightarrow> c \<in> set [CHR '' '', CHR 0x09, CHR 0x0A, CHR 0x0B, CHR 0x0C, CHR 0x0D]"

definition toupper :: "char \<Rightarrow> char" where
  "toupper c =
     (case map_of (zip ''abcdefghijklmnopqrstuvwxyz'' ''ABCDEFGHIJKLMNOPQRSTUVWXYZ'') c of
        Some u \<Rightarrow> u
      | None \<Rightarrow> c)"

definition hex_val :: "char \<Rightarrow> nat option" where
  "hex_val c =
     map_of (zip ''0123456789abcdefABCDEF''
       [0, 1, 2, 3, 4, 5, 6, 7, 8, 9, 10, 11, 12, 13, 14, 15, 10, 11, 12, 13, 14, 15]) c"

definition isdigit :: "char \<Rightarrow> bool" where
  "isdigit c \<longleftrightarrow> c \<in> set ''0123456789''"

definition isxdigit :: "char \<Rightarrow> bool" where
  "isxdigit c \<longleftrightarrow> hex_val c \<noteq> None"

definition isalnum_us :: "char \<Rightarrow> bool" where
  "isalnum_us c \<longleftrightarrow>
     isdigit c \<or> c = CHR ''_'' \<or> toupper c \<in> set ''ABCDEFGHIJKLMNOPQRSTUVWXYZ''"

text \<open>The number written by a digit string in the given base, most significant digit first.\<close>

definition digits_val :: "nat \<Rightarrow> string \<Rightarrow> nat" where
  "digits_val base ds =
     foldl (\<lambda>a c. a * base + (case hex_val c of Some d \<Rightarrow> d | None \<Rightarrow> 0)) 0 ds"

subsection \<open>Single-precision floating point\<close>

text \<open>
  A C \<^verbatim>\<open>float\<close> is an IEEE 754 binary32 value: a finite value (a rational with a 24-bit
  significand and an exponent between -149 and 104), an infinity or a NaN. Every
  arithmetic operation rounds its exact result to the nearest such value, ties to
  even. The two zeros compare equal and are one value here.
\<close>

datatype cfloat = Finite rat | PInf | NInf | NaN

definition pow2 :: "int \<Rightarrow> rat" where
  "pow2 k = (if 0 \<le> k then 2 ^ nat k else 1 / 2 ^ nat (- k))"

definition pow10 :: "int \<Rightarrow> rat" where
  "pow10 k = (if 0 \<le> k then 10 ^ nat k else 1 / 10 ^ nat (- k))"

text \<open>\<open>ilog2 a\<close> is the integer \<open>e\<close> with \<open>2\<^sup>e \<le> a < 2\<^sup>e\<^sup>+\<^sup>1\<close>, for positive \<open>a\<close>.\<close>

definition ilog2 :: "rat \<Rightarrow> int" where
  "ilog2 a =
     (let k = bitlen (fst (quotient_of a)) - bitlen (snd (quotient_of a))
      in if pow2 k \<le> a then k else k - 1)"

definition round_half_even :: "rat \<Rightarrow> int" where
  "round_half_even y =
     (let f = \<lfloor>y\<rfloor>; r = y - of_int f
      in if r < 1 / 2 then f
         else if 1 / 2 < r then f + 1
         else if even f then f else f + 1)"

definition round_f32 :: "rat \<Rightarrow> cfloat" where
  "round_f32 x =
     (if x = 0 then Finite 0
      else
        let a = \<bar>x\<bar>;
            e = max (ilog2 a) (- 126);
            ulp = pow2 (e - 23);
            r = of_int (round_half_even (a / ulp)) * ulp
        in if pow2 128 \<le> r then (if x < 0 then NInf else PInf)
           else Finite (if x < 0 then - r else r))"

definition f_neg :: "cfloat \<Rightarrow> cfloat" where
  "f_neg a = (case a of Finite x \<Rightarrow> Finite (- x) | PInf \<Rightarrow> NInf | NInf \<Rightarrow> PInf | NaN \<Rightarrow> NaN)"

definition f_add :: "cfloat \<Rightarrow> cfloat \<Rightarrow> cfloat" where
  "f_add a b =
     (case (a, b) of
        (NaN, _) \<Rightarrow> NaN
      | (_, NaN) \<Rightarrow> NaN
      | (PInf, NInf) \<Rightarrow> NaN
      | (NInf, PInf) \<Rightarrow> NaN
      | (PInf, _) \<Rightarrow> PInf
      | (_, PInf) \<Rightarrow> PInf
      | (NInf, _) \<Rightarrow> NInf
      | (_, NInf) \<Rightarrow> NInf
      | (Finite x, Finite y) \<Rightarrow> round_f32 (x + y))"

definition f_sub :: "cfloat \<Rightarrow> cfloat \<Rightarrow> cfloat" where
  "f_sub a b = f_add a (f_neg b)"

definition f_sign_inf :: "bool \<Rightarrow> cfloat" where
  "f_sign_inf negative = (if negative then NInf else PInf)"

definition f_mul :: "cfloat \<Rightarrow> cfloat \<Rightarrow> cfloat" where
  "f_mul a b =
     (case (a, b) of
        (NaN, _) \<Rightarrow> NaN
      | (_, NaN) \<Rightarrow> NaN
      | (Finite x, Finite y) \<Rightarrow> round_f32 (x * y)
      | (Finite x, PInf) \<Rightarrow> (if x = 0 then NaN else f_sign_inf (x < 0))
      | (Finite x, NInf) \<Rightarrow> (if x = 0 then NaN else f_sign_inf (0 < x))
      | (PInf, Finite y) \<Rightarrow> (if y = 0 then NaN else f_sign_inf (y < 0))
      | (NInf, Finite y) \<Rightarrow> (if y = 0 then NaN else f_sign_inf (0 < y))
      | (PInf, PInf) \<Rightarrow> PInf
      | (NInf, NInf) \<Rightarrow> PInf
      | (PInf, NInf) \<Rightarrow> NInf
      | (NInf, PInf) \<Rightarrow> NInf)"

text \<open>The C operator \<^verbatim>\<open>!=\<close> on floats: a NaN differs from everything, itself included.\<close>

definition f_ne :: "cfloat \<Rightarrow> cfloat \<Rightarrow> bool" where
  "f_ne a b \<longleftrightarrow> a = NaN \<or> b = NaN \<or> a \<noteq> b"

text \<open>
  The cast \<^verbatim>\<open>(int) value\<close>: the fractional part is discarded (truncation toward zero).
  The behaviour is undefined (\<open>None\<close>) when the integral part does not fit a 32-bit
  \<^verbatim>\<open>int\<close>, and for infinities and NaN.
\<close>

definition float_to_int :: "cfloat \<Rightarrow> int option" where
  "float_to_int v =
     (case v of
        Finite x \<Rightarrow>
          (let t = (if 0 \<le> x then \<lfloor>x\<rfloor> else \<lceil>x\<rceil>)
           in if - (2 ^ 31) \<le> t \<and> t < 2 ^ 31 then Some t else None)
      | _ \<Rightarrow> None)"

subsection \<open>\<^verbatim>\<open>strtof\<close>\<close>

text \<open>
  \<^verbatim>\<open>strtof(nptr, &endptr)\<close> skips white space, then takes the longest prefix that is an
  optionally signed decimal floating constant, hexadecimal floating constant,
  \<^verbatim>\<open>INF\<close>, \<^verbatim>\<open>INFINITY\<close> or \<^verbatim>\<open>NAN\<close>; it returns the value rounded to \<^verbatim>\<open>float\<close> and sets
  \<^verbatim>\<open>endptr\<close> behind the prefix. Without such a prefix it returns 0 and sets
  \<^verbatim>\<open>endptr = nptr\<close>. The model takes the characters of the string (the terminator
  excluded) and returns the value and \<^verbatim>\<open>endptr - nptr\<close>.
\<close>

definition parse_exponent :: "string \<Rightarrow> string \<Rightarrow> int \<times> nat" where
  "parse_exponent marks s =
     (case s of
        [] \<Rightarrow> (0, 0)
      | m # t \<Rightarrow>
          if m \<notin> set marks then (0, 0)
          else
            let sg = (case t of c # _ \<Rightarrow> if c = CHR ''-'' \<or> c = CHR ''+'' then 1 else 0 | [] \<Rightarrow> 0);
                neg = (case t of c # _ \<Rightarrow> c = CHR ''-'' | [] \<Rightarrow> False);
                ds = takeWhile isdigit (drop sg t)
            in if ds = [] then (0, 0)
               else ((if neg then - int (digits_val 10 ds) else int (digits_val 10 ds)),
                     1 + sg + length ds))"

definition parse_decimal :: "string \<Rightarrow> (rat \<times> nat) option" where
  "parse_decimal s =
     (let ip = takeWhile isdigit s;
          r1 = drop (length ip) s;
          dot = (case r1 of c # _ \<Rightarrow> if c = CHR ''.'' then 1 else 0 | [] \<Rightarrow> 0);
          fp = (if dot = 1 then takeWhile isdigit (drop 1 r1) else [])
      in if ip = [] \<and> fp = [] then None
         else
           let n = length ip + dot + length fp;
               ex = parse_exponent ''eE'' (drop n s)
           in Some (of_nat (digits_val 10 (ip @ fp)) * pow10 (fst ex - int (length fp)),
                    n + snd ex))"

definition parse_hex :: "string \<Rightarrow> (rat \<times> nat) option" where
  "parse_hex s =
     (case s of
        z # x # t \<Rightarrow>
          if z = CHR ''0'' \<and> (x = CHR ''x'' \<or> x = CHR ''X'') then
            (let ip = takeWhile isxdigit t;
                 r1 = drop (length ip) t;
                 dot = (case r1 of c # _ \<Rightarrow> if c = CHR ''.'' then 1 else 0 | [] \<Rightarrow> 0);
                 fp = (if dot = 1 then takeWhile isxdigit (drop 1 r1) else [])
             in if ip = [] \<and> fp = [] then None
                else
                  let n = length ip + dot + length fp;
                      ex = parse_exponent ''pP'' (drop n t)
                  in Some (of_nat (digits_val 16 (ip @ fp)) * pow2 (fst ex - 4 * int (length fp)),
                           2 + n + snd ex))
          else None
      | _ \<Rightarrow> None)"

definition parse_inf_nan :: "string \<Rightarrow> (cfloat \<times> nat) option" where
  "parse_inf_nan s =
     (if map toupper (take 8 s) = ''INFINITY'' then Some (PInf, 8)
      else if map toupper (take 3 s) = ''INF'' then Some (PInf, 3)
      else if map toupper (take 3 s) = ''NAN'' then
        (case drop 3 s of
           c # t \<Rightarrow>
             (let body = takeWhile isalnum_us t
              in if c = CHR ''('' \<and> take 1 (drop (length body) t) = '')''
                 then Some (NaN, 3 + 1 + length body + 1)
                 else Some (NaN, 3))
         | [] \<Rightarrow> Some (NaN, 3))
      else None)"

definition parse_number :: "string \<Rightarrow> (cfloat \<times> nat) option" where
  "parse_number s =
     (case parse_inf_nan s of
        Some r \<Rightarrow> Some r
      | None \<Rightarrow>
          (case parse_hex s of
             Some (v, n) \<Rightarrow> Some (round_f32 v, n)
           | None \<Rightarrow>
               (case parse_decimal s of
                  Some (v, n) \<Rightarrow> Some (round_f32 v, n)
                | None \<Rightarrow> None)))"

definition strtof :: "string \<Rightarrow> cfloat \<times> nat" where
  "strtof s =
     (let ws = length (takeWhile isspace s);
          s1 = drop ws s;
          sg = (case s1 of c # _ \<Rightarrow> if c = CHR ''-'' \<or> c = CHR ''+'' then 1 else 0 | [] \<Rightarrow> 0);
          neg = (case s1 of c # _ \<Rightarrow> c = CHR ''-'' | [] \<Rightarrow> False)
      in case parse_number (drop sg s1) of
           None \<Rightarrow> (Finite 0, 0)
         | Some (v, n) \<Rightarrow> (if neg then f_neg v else v, ws + sg + n))"

section \<open>Data model of \<^verbatim>\<open>gcode-parser.c\<close>\<close>

subsection \<open>Declarations of \<^verbatim>\<open>gcode-parser.h\<close>\<close>

text \<open>
  Modelled from the spec: the header \<^verbatim>\<open>gcode-parser.h\<close> is not among the sources. It
  declares the axis enumeration, \<^verbatim>\<open>GCODE_NUM_AXES\<close> and the callback struct. The spec
  (section 3) gives "a fixed enumeration of 7 logical axes (X, Y, Z, E, A, B, C), each
  identified by a small integer index"; the indices are taken in that order from 0.
\<close>

datatype GCodeParserAxes = AXIS_X | AXIS_Y | AXIS_Z | AXIS_E | AXIS_A | AXIS_B | AXIS_C

definition axis_index :: "GCodeParserAxes \<Rightarrow> nat" where
  "axis_index a =
     (case a of AXIS_X \<Rightarrow> 0 | AXIS_Y \<Rightarrow> 1 | AXIS_Z \<Rightarrow> 2 | AXIS_E \<Rightarrow> 3
      | AXIS_A \<Rightarrow> 4 | AXIS_B \<Rightarrow> 5 | AXIS_C \<Rightarrow> 6)"

definition all_axes :: "GCodeParserAxes list" where
  "all_axes = [AXIS_X, AXIS_Y, AXIS_Z, AXIS_E, AXIS_A, AXIS_B, AXIS_C]"

definition GCODE_NUM_AXES :: nat where
  "GCODE_NUM_AXES = length all_axes"

text \<open>
  Modelled from the spec: the callback struct of the header, with the members that
  \<^verbatim>\<open>gcodep_new\<close> and the handlers use (spec section 6). A callback receives the
  caller's context \<^verbatim>\<open>void *userdata\<close>; the context is the state \<open>'u\<close> here, and a
  callback returns the context it leaves behind. The move callbacks receive the
  \<^verbatim>\<open>const float *\<close> to the position register as the list of its 7 values.
  \<open>unprocessed\<close> also returns a \<^verbatim>\<open>const char *\<close>.
\<close>

record 'u GCodeParserCb =
  go_home :: "'u \<Rightarrow> 8 word \<Rightarrow> 'u"
  set_feedrate :: "'u \<Rightarrow> cfloat \<Rightarrow> 'u"
  set_fanspeed :: "'u \<Rightarrow> cfloat \<Rightarrow> 'u"
  set_temperature :: "'u \<Rightarrow> cfloat \<Rightarrow> 'u"
  wait_temperature :: "'u \<Rightarrow> 'u"
  disable_motors :: "'u \<Rightarrow> 'u"
  coordinated_move :: "'u \<Rightarrow> cfloat list \<Rightarrow> 'u"
  rapid_move :: "'u \<Rightarrow> cfloat list \<Rightarrow> 'u"
  unprocessed :: "'u \<Rightarrow> char \<Rightarrow> cfloat \<Rightarrow> char list \<Rightarrow> 'u \<times> char list option"

text \<open>
  The same struct as \<^verbatim>\<open>gcodep_new\<close> receives it from the caller: a member may be a null
  pointer (\<open>None\<close>).
\<close>

record 'u GCodeParserCb_arg =
  arg_go_home :: "('u \<Rightarrow> 8 word \<Rightarrow> 'u) option"
  arg_set_feedrate :: "('u \<Rightarrow> cfloat \<Rightarrow> 'u) option"
  arg_set_fanspeed :: "('u \<Rightarrow> cfloat \<Rightarrow> 'u) option"
  arg_set_temperature :: "('u \<Rightarrow> cfloat \<Rightarrow> 'u) option"
  arg_wait_temperature :: "('u \<Rightarrow> 'u) option"
  arg_disable_motors :: "('u \<Rightarrow> 'u) option"
  arg_coordinated_move :: "('u \<Rightarrow> cfloat list \<Rightarrow> 'u) option"
  arg_rapid_move :: "('u \<Rightarrow> cfloat list \<Rightarrow> 'u) option"
  arg_unprocessed :: "('u \<Rightarrow> char \<Rightarrow> cfloat \<Rightarrow> char list \<Rightarrow> 'u \<times> char list option) option"

subsection \<open>The parser object\<close>

text \<open>\<^verbatim>\<open>typedef float AxesRegister[GCODE_NUM_AXES]\<close>: one float for each axis.\<close>

type_synonym AxesRegister = "GCodeParserAxes \<Rightarrow> cfloat"

definition reg_list :: "AxesRegister \<Rightarrow> cfloat list" where
  "reg_list r = map r all_axes"

definition zero_register :: AxesRegister where
  "zero_register = (\<lambda>_. Finite 0)"

definition kAllAxesBitmap :: "8 word" where
  "kAllAxesBitmap =
     push_bit (axis_index AXIS_X) 1 OR push_bit (axis_index AXIS_Y) 1
     OR push_bit (axis_index AXIS_Z) 1 OR push_bit (axis_index AXIS_E) 1
     OR push_bit (axis_index AXIS_A) 1 OR push_bit (axis_index AXIS_B) 1
     OR push_bit (axis_index AXIS_C) 1"

record 'u GCodeParser =
  callbacks :: "'u GCodeParserCb"
  cb_userdata :: 'u
  provided_axes :: int
  unit_to_mm_factor :: cfloat
  axis_is_absolute :: "GCodeParserAxes \<Rightarrow> bool"
  current_feedrate :: cfloat
  relative_zero :: AxesRegister
  axes_pos :: AxesRegister

text \<open>
  In the parser object \<^verbatim>\<open>char axis_is_absolute[]\<close> holds 0 or 1 for each axis (a \<open>bool\<close>
  here), and every callback is set.
\<close>

text \<open>
  The stand-ins of \<^verbatim>\<open>gcodep_new\<close> for callbacks the caller leaves out. They print to
  \<^verbatim>\<open>stderr\<close> and leave the caller's context alone; \<^verbatim>\<open>dummy_unprocessed\<close> returns
  \<^verbatim>\<open>NULL\<close>.
\<close>

definition dummy_set_feedrate :: "'u \<Rightarrow> cfloat \<Rightarrow> 'u" where
  "dummy_set_feedrate user f = user"

definition dummy_set_temperature :: "'u \<Rightarrow> cfloat \<Rightarrow> 'u" where
  "dummy_set_temperature user f = user"

definition dummy_set_fanspeed :: "'u \<Rightarrow> cfloat \<Rightarrow> 'u" where
  "dummy_set_fanspeed user speed = user"

definition dummy_wait_temperature :: "'u \<Rightarrow> 'u" where
  "dummy_wait_temperature user = user"

definition dummy_disable_motors :: "'u \<Rightarrow> 'u" where
  "dummy_disable_motors user = user"

definition dummy_move :: "'u \<Rightarrow> cfloat list \<Rightarrow> 'u" where
  "dummy_move user axes = user"

definition dummy_go_home :: "'u \<Rightarrow> 8 word \<Rightarrow> 'u" where
  "dummy_go_home user flags = user"

definition dummy_unprocessed :: "'u \<Rightarrow> char \<Rightarrow> cfloat \<Rightarrow> char list \<Rightarrow> 'u \<times> char list option" where
  "dummy_unprocessed user letter v remaining = (user, None)"

definition set_all_axis_to_absolute :: "'u GCodeParser \<Rightarrow> bool \<Rightarrow> 'u GCodeParser" where
  "set_all_axis_to_absolute p v = p\<lparr>axis_is_absolute := (\<lambda>_. v)\<rparr>"

definition or_else :: "'a option \<Rightarrow> 'a \<Rightarrow> 'a" where
  "or_else f d = (case f of Some g \<Rightarrow> g | None \<Rightarrow> d)"

text \<open>The float constants of the source: \<^verbatim>\<open>1.0f\<close> and \<^verbatim>\<open>25.4f\<close>.\<close>

definition f_1_0 :: cfloat where
  "f_1_0 = round_f32 1"

definition f_25_4 :: cfloat where
  "f_25_4 = round_f32 (254 / 10)"

definition gcodep_new :: "'u GCodeParserCb_arg option \<Rightarrow> 'u \<Rightarrow> 'u GCodeParser" where
  "gcodep_new cbs userdata =
     (let coord = or_else (Option.bind cbs arg_coordinated_move) dummy_move
      in set_all_axis_to_absolute
           \<lparr>callbacks =
              \<lparr>go_home = or_else (Option.bind cbs arg_go_home) dummy_go_home,
               set_feedrate = or_else (Option.bind cbs arg_set_feedrate) dummy_set_feedrate,
               set_fanspeed = or_else (Option.bind cbs arg_set_fanspeed) dummy_set_fanspeed,
               set_temperature =
                 or_else (Option.bind cbs arg_set_temperature) dummy_set_temperature,
               wait_temperature =
                 or_else (Option.bind cbs arg_wait_temperature) dummy_wait_temperature,
               disable_motors =
                 or_else (Option.bind cbs arg_disable_motors) dummy_disable_motors,
               coordinated_move = coord,
               rapid_move = or_else (Option.bind cbs arg_rapid_move) coord,
               unprocessed = or_else (Option.bind cbs arg_unprocessed) dummy_unprocessed\<rparr>,
            cb_userdata = userdata,
            provided_axes = 0,
            unit_to_mm_factor = f_1_0,
            axis_is_absolute = (\<lambda>_. False),
            current_feedrate = Finite 0,
            relative_zero = zero_register,
            axes_pos = zero_register\<rparr>
           True)"

section \<open>The tokenizer\<close>

text \<open>
  A \<^verbatim>\<open>const char *\<close> is \<open>None\<close> for \<^verbatim>\<open>NULL\<close> and otherwise the bytes of the caller's
  buffer from the pointer to the end of the buffer, the terminator and whatever follows
  it included. Reading behind the last byte of the buffer is the fault
  \<open>OutOfBounds\<close>. \<open>c_str s\<close> is the buffer that holds exactly the string \<open>s\<close>.
\<close>

type_synonym cptr = "char list option"

datatype fault = OutOfBounds | IntCastUndefined

definition c_str :: "string \<Rightarrow> char list" where
  "c_str s = s @ [NUL]"

text \<open>The string a pointer points to: the bytes before the first terminator.\<close>

definition string_at :: "char list \<Rightarrow> string option" where
  "string_at l = (if NUL \<in> set l then Some (takeWhile (\<lambda>c. c \<noteq> NUL) l) else None)"

text \<open>\<^verbatim>\<open>while (*line && isspace(*line)) line++;\<close>\<close>

fun skip_whitespace :: "char list \<Rightarrow> fault + char list" where
  "skip_whitespace [] = Inl OutOfBounds"
| "skip_whitespace (c # cs) =
     (if c \<noteq> NUL \<and> isspace c then skip_whitespace cs else Inr (c # cs))"

text \<open>
  What \<^verbatim>\<open>parse_next_pair\<close> hands back: \<^verbatim>\<open>NULL\<close>, with the diagnostic it printed to
  \<^verbatim>\<open>stderr\<close> if it printed one, or the remaining line together with the letter and the
  value it stored through its out-parameters. (When it returns \<^verbatim>\<open>NULL\<close> no caller
  reads the out-parameters.)
\<close>

datatype diagnostic = ExpectedValueAfter char | NotFollowedByNumber char string

datatype pair_result = Null "diagnostic option" | Parsed char cfloat "char list"

text \<open>
  The second half of \<^verbatim>\<open>parse_next_pair\<close>, from the hex workaround on. \<open>line0\<close> is the
  buffer at the pointer the function was called with, \<open>line\<close> the buffer at the start of
  the number. The workaround reads \<^verbatim>\<open>*(line+1)\<close>, overwrites it with the terminator
  while \<^verbatim>\<open>strtof\<close> runs, and then stores \<^verbatim>\<open>'X'\<close> there. \<^verbatim>\<open>strtof\<close> and the \<^verbatim>\<open>%s\<close> of the
  diagnostic read a string: in a buffer with no terminator that is a read behind the
  buffer. The function returns the caller's buffer as it leaves it, and the result.
\<close>

definition parse_value :: "char list \<Rightarrow> char \<Rightarrow> char list \<Rightarrow> fault + (cptr \<times> pair_result)" where
  "parse_value line0 letter line =
     (case line of
        c # d # rest \<Rightarrow>
          (let repair_x = (d = CHR ''x'' \<or> d = CHR ''X'');
               during = (if repair_x then c # NUL # rest else line);
               after = (if repair_x then c # CHR ''X'' # rest else line);
               buffer = take (length line0 - length line) line0 @ after
           in case string_at during of
                None \<Rightarrow> Inl OutOfBounds
              | Some number \<Rightarrow>
                  (let v = fst (strtof number); endptr = snd (strtof number)
                   in if endptr = 0 then
                        (case string_at after of
                           None \<Rightarrow> Inl OutOfBounds
                         | Some text \<Rightarrow>
                             Inr (Some buffer, Null (Some (NotFollowedByNumber letter text))))
                      else
                        (case skip_whitespace (drop endptr after) of
                           Inl f \<Rightarrow> Inl f
                         | Inr remaining \<Rightarrow> Inr (Some buffer, Parsed letter v remaining))))
      | _ \<Rightarrow> Inl OutOfBounds)"

definition parse_next_pair :: "cptr \<Rightarrow> fault + (cptr \<times> pair_result)" where
  "parse_next_pair line0 =
     (case line0 of
        None \<Rightarrow> Inr (None, Null None)
      | Some l0 \<Rightarrow>
          (case skip_whitespace l0 of
             Inl f \<Rightarrow> Inl f
           | Inr l1 \<Rightarrow>
               (case l1 of
                  [] \<Rightarrow> Inl OutOfBounds
                | c # l2 \<Rightarrow>
                    if c = NUL \<or> c = CHR '';'' \<or> c = CHR ''%'' then Inr (line0, Null None)
                    else
                      (case l2 of
                         [] \<Rightarrow> Inl OutOfBounds
                       | d # _ \<Rightarrow>
                           if d = NUL then
                             Inr (line0, Null (Some (ExpectedValueAfter (toupper c))))
                           else if toupper c = CHR ''*'' then Inr (line0, Null None)
                           else
                             (case skip_whitespace l2 of
                                Inl f \<Rightarrow> Inl f
                              | Inr l3 \<Rightarrow> parse_value l0 (toupper c) l3)))))"

text \<open>A word that \<^verbatim>\<open>parse_next_pair\<close> returns leaves a strictly shorter remaining line.\<close>

definition cptr_size :: "cptr \<Rightarrow> nat" where
  "cptr_size line = (case line of None \<Rightarrow> 0 | Some l \<Rightarrow> length l)"

lemma skip_whitespace_length:
  "skip_whitespace l = Inr l' \<Longrightarrow> length l' \<le> length l \<and> l' \<noteq> []"
  by (induction l) (auto split: if_splits)

lemma parse_value_advances:
  "parse_value l0 letter line = Inr (m, Parsed a v rest) \<Longrightarrow> length rest < length line"
  by (auto simp: parse_value_def Let_def split: list.splits option.splits if_splits sum.splits
      dest!: skip_whitespace_length)

lemma parse_next_pair_advances:
  "parse_next_pair line = Inr (m, Parsed a v rest) \<Longrightarrow>
     \<exists>l. line = Some l \<and> length rest < length l"
  by (auto simp: parse_next_pair_def split: option.splits list.splits if_splits sum.splits
      dest!: skip_whitespace_length parse_value_advances)

lemma parse_next_pair_smaller:
  "parse_next_pair line = Inr (m, Parsed a v rest) \<Longrightarrow> cptr_size (Some rest) < cptr_size line"
  by (auto simp: cptr_size_def dest: parse_next_pair_advances)

section \<open>The command handlers\<close>

text \<open>
  The handlers switch over the axis letters \<^verbatim>\<open>'X'\<close>, \<^verbatim>\<open>'Y'\<close>, \<^verbatim>\<open>'Z'\<close>, \<^verbatim>\<open>'E'\<close>, \<^verbatim>\<open>'A'\<close>,
  \<^verbatim>\<open>'B'\<close>, \<^verbatim>\<open>'C'\<close>, each case naming its axis; \<open>None\<close> is the \<^verbatim>\<open>default\<close> case.
\<close>

definition axis_of_letter :: "char \<Rightarrow> GCodeParserAxes option" where
  "axis_of_letter c = map_of (zip ''XYZEABC'' all_axes) c"

subsection \<open>\<^verbatim>\<open>handle_home\<close>\<close>

text \<open>
  The \<^verbatim>\<open>while\<close> loop of \<^verbatim>\<open>handle_home\<close>, with its variables \<^verbatim>\<open>line\<close> and
  \<^verbatim>\<open>homing_flags\<close>. It returns the pointer \<^verbatim>\<open>line\<close> (the buffer as the last call of the
  tokenizer left it) and the flags.
\<close>

function handle_home_loop :: "cptr \<Rightarrow> 8 word \<Rightarrow> fault + (cptr \<times> 8 word)" where
  "handle_home_loop line homing_flags =
     (case parse_next_pair line of
        Inl f \<Rightarrow> Inl f
      | Inr (line', Null d) \<Rightarrow> Inr (line', homing_flags)
      | Inr (line', Parsed axis dummy remaining_line) \<Rightarrow>
          (case axis_of_letter axis of
             Some a \<Rightarrow>
               handle_home_loop (Some remaining_line)
                 (homing_flags OR push_bit (axis_index a) 1)
           | None \<Rightarrow> Inr (line', homing_flags)))"
  by pat_completeness auto
termination
  by (relation "measure (\<lambda>(line, homing_flags). cptr_size line)")
     (auto dest: parse_next_pair_smaller)

declare handle_home_loop.simps [simp del]

definition handle_home :: "'u GCodeParser \<Rightarrow> cptr \<Rightarrow> fault + (cptr \<times> 'u GCodeParser)" where
  "handle_home p line =
     (let p0 = p\<lparr>axes_pos := zero_register, relative_zero := zero_register\<rparr>
      in case handle_home_loop line 0 of
           Inl f \<Rightarrow> Inl f
         | Inr (line', homing_flags) \<Rightarrow>
             Inr (line',
                  p0\<lparr>cb_userdata :=
                       go_home (callbacks p0) (cb_userdata p0)
                         (if homing_flags \<noteq> 0 then homing_flags else kAllAxesBitmap)\<rparr>))"

subsection \<open>\<^verbatim>\<open>handle_rebase\<close>\<close>

function handle_rebase :: "'u GCodeParser \<Rightarrow> cptr \<Rightarrow> fault + (cptr \<times> 'u GCodeParser)" where
  "handle_rebase p line =
     (case parse_next_pair line of
        Inl f \<Rightarrow> Inl f
      | Inr (line', Null d) \<Rightarrow> Inr (line', p)
      | Inr (line', Parsed axis v remaining_line) \<Rightarrow>
          (case axis_of_letter axis of
             Some a \<Rightarrow>
               handle_rebase
                 (p\<lparr>relative_zero :=
                      (relative_zero p)
                        (a := f_sub (axes_pos p a) (f_mul v (unit_to_mm_factor p)))\<rparr>)
                 (Some remaining_line)
           | None \<Rightarrow> Inr (line', p)))"
  by pat_completeness auto
termination
  by (relation "measure (\<lambda>(p, line). cptr_size line)")
     (auto dest: parse_next_pair_smaller)

declare handle_rebase.simps [simp del]

subsection \<open>\<^verbatim>\<open>set_S_param\<close>\<close>

definition set_S_param ::
  "'u \<Rightarrow> ('u \<Rightarrow> cfloat \<Rightarrow> 'u) \<Rightarrow> cptr \<Rightarrow> fault + (cptr \<times> 'u)" where
  "set_S_param userdata value_setter line =
     (case parse_next_pair line of
        Inl f \<Rightarrow> Inl f
      | Inr (line', Null d) \<Rightarrow> Inr (line', userdata)
      | Inr (line', Parsed letter v remaining_line) \<Rightarrow>
          if letter = CHR ''S'' then Inr (Some remaining_line, value_setter userdata v)
          else Inr (line', userdata))"

subsection \<open>\<^verbatim>\<open>handle_move\<close>\<close>

text \<open>The case \<^verbatim>\<open>'F'\<close> of the switch.\<close>

definition move_feedrate :: "'u GCodeParser \<Rightarrow> cfloat \<Rightarrow> 'u GCodeParser" where
  "move_feedrate p unit_value =
     (if f_ne (current_feedrate p) unit_value
      then p\<lparr>cb_userdata := set_feedrate (callbacks p) (cb_userdata p) unit_value,
             current_feedrate := unit_value\<rparr>
      else p)"

text \<open>The block under \<^verbatim>\<open>if (update_axis >= 0)\<close>.\<close>

definition move_axis :: "'u GCodeParser \<Rightarrow> GCodeParserAxes \<Rightarrow> cfloat \<Rightarrow> 'u GCodeParser" where
  "move_axis p update_axis unit_value =
     (if axis_is_absolute p update_axis
      then p\<lparr>axes_pos :=
               (axes_pos p)(update_axis := f_add (relative_zero p update_axis) unit_value)\<rparr>
      else p\<lparr>axes_pos :=
               (axes_pos p)(update_axis := f_add (axes_pos p update_axis) unit_value)\<rparr>)"

text \<open>
  The \<^verbatim>\<open>while\<close> loop of \<^verbatim>\<open>handle_move\<close>, with its variables \<^verbatim>\<open>line\<close> and
  \<^verbatim>\<open>any_change\<close>. The variable \<^verbatim>\<open>update_axis\<close> is -1 at the start of every iteration
  and is set by the axis cases only.
\<close>

function handle_move_loop ::
  "'u GCodeParser \<Rightarrow> cptr \<Rightarrow> bool \<Rightarrow> fault + (cptr \<times> 'u GCodeParser \<times> bool)" where
  "handle_move_loop p line any_change =
     (case parse_next_pair line of
        Inl f \<Rightarrow> Inl f
      | Inr (line', Null d) \<Rightarrow> Inr (line', p, any_change)
      | Inr (line', Parsed axis v remaining_line) \<Rightarrow>
          if axis = CHR ''F'' then
            handle_move_loop (move_feedrate p (f_mul v (unit_to_mm_factor p)))
              (Some remaining_line) any_change
          else
            (case axis_of_letter axis of
               Some update_axis \<Rightarrow>
                 handle_move_loop (move_axis p update_axis (f_mul v (unit_to_mm_factor p)))
                   (Some remaining_line) True
             | None \<Rightarrow> Inr (line', p, any_change)))"
  by pat_completeness auto
termination
  by (relation "measure (\<lambda>(p, line, any_change). cptr_size line)")
     (auto dest: parse_next_pair_smaller)

declare handle_move_loop.simps [simp del]

definition handle_move ::
  "'u GCodeParser \<Rightarrow> ('u \<Rightarrow> cfloat list \<Rightarrow> 'u) \<Rightarrow> cptr \<Rightarrow> fault + (cptr \<times> 'u GCodeParser)" where
  "handle_move p fun_move line =
     (case handle_move_loop p line False of
        Inl f \<Rightarrow> Inl f
      | Inr (line', p', any_change) \<Rightarrow>
          Inr (line',
               if any_change
               then p'\<lparr>cb_userdata := fun_move (cb_userdata p') (reg_list (axes_pos p'))\<rparr>
               else p'))"

section \<open>\<^verbatim>\<open>gcodep_parse_line\<close>\<close>

definition call_unprocessed ::
  "'u GCodeParser \<Rightarrow> char \<Rightarrow> cfloat \<Rightarrow> char list \<Rightarrow> fault + (cptr \<times> 'u GCodeParser)" where
  "call_unprocessed p letter v line =
     Inr (snd (unprocessed (callbacks p) (cb_userdata p) letter v line),
          p\<lparr>cb_userdata := fst (unprocessed (callbacks p) (cb_userdata p) letter v line)\<rparr>)"

text \<open>The two \<^verbatim>\<open>switch ((int) value)\<close> statements.\<close>

definition switch_G ::
  "'u GCodeParser \<Rightarrow> int \<Rightarrow> cfloat \<Rightarrow> char list \<Rightarrow> fault + (cptr \<times> 'u GCodeParser)" where
  "switch_G p code v line =
     (if code = 0 then handle_move p (rapid_move (callbacks p)) (Some line)
      else if code = 1 then handle_move p (coordinated_move (callbacks p)) (Some line)
      else if code = 20 then Inr (Some line, p\<lparr>unit_to_mm_factor := f_25_4\<rparr>)
      else if code = 21 then Inr (Some line, p\<lparr>unit_to_mm_factor := f_1_0\<rparr>)
      else if code = 28 then handle_home p (Some line)
      else if code = 90 then Inr (Some line, set_all_axis_to_absolute p True)
      else if code = 91 then Inr (Some line, set_all_axis_to_absolute p False)
      else if code = 92 then handle_rebase p (Some line)
      else call_unprocessed p (CHR ''G'') v line)"

definition switch_M ::
  "'u GCodeParser \<Rightarrow> int \<Rightarrow> cfloat \<Rightarrow> char list \<Rightarrow> fault + (cptr \<times> 'u GCodeParser)" where
  "switch_M p code v line =
     (if code = 82 then
        Inr (Some line, p\<lparr>axis_is_absolute := (axis_is_absolute p)(AXIS_E := True)\<rparr>)
      else if code = 83 then
        Inr (Some line, p\<lparr>axis_is_absolute := (axis_is_absolute p)(AXIS_E := False)\<rparr>)
      else if code = 84 then
        Inr (Some line, p\<lparr>cb_userdata := disable_motors (callbacks p) (cb_userdata p)\<rparr>)
      else if code = 104 then
        (case set_S_param (cb_userdata p) (set_temperature (callbacks p)) (Some line) of
           Inl f \<Rightarrow> Inl f
         | Inr (line', u) \<Rightarrow> Inr (line', p\<lparr>cb_userdata := u\<rparr>))
      else if code = 106 then
        (case set_S_param (cb_userdata p) (set_fanspeed (callbacks p)) (Some line) of
           Inl f \<Rightarrow> Inl f
         | Inr (line', u) \<Rightarrow> Inr (line', p\<lparr>cb_userdata := u\<rparr>))
      else if code = 107 then
        Inr (Some line,
             p\<lparr>cb_userdata := set_fanspeed (callbacks p) (cb_userdata p) (Finite 0)\<rparr>)
      else if code = 109 then
        (case set_S_param (cb_userdata p) (set_temperature (callbacks p)) (Some line) of
           Inl f \<Rightarrow> Inl f
         | Inr (line', u) \<Rightarrow>
             Inr (line', p\<lparr>cb_userdata := wait_temperature (callbacks p) u\<rparr>))
      else if code = 116 then
        Inr (Some line, p\<lparr>cb_userdata := wait_temperature (callbacks p) (cb_userdata p)\<rparr>)
      else call_unprocessed p (CHR ''M'') v line)"

text \<open>
  The body of the \<^verbatim>\<open>while\<close> loop of \<^verbatim>\<open>gcodep_parse_line\<close>: \<open>line\<close> is what
  \<^verbatim>\<open>parse_next_pair\<close> returned in the loop condition, the line behind the word
  \<open>letter\<close>, \<open>v\<close>. It returns the new \<^verbatim>\<open>line\<close> and the parser.
\<close>

definition parse_line_body ::
  "'u GCodeParser \<Rightarrow> char \<Rightarrow> cfloat \<Rightarrow> char list \<Rightarrow> fault + (cptr \<times> 'u GCodeParser)" where
  "parse_line_body p letter v line =
     (if letter = CHR ''G'' then
        (case float_to_int v of
           None \<Rightarrow> Inl IntCastUndefined
         | Some code \<Rightarrow> switch_G p code v line)
      else if letter = CHR ''M'' then
        (case float_to_int v of
           None \<Rightarrow> Inl IntCastUndefined
         | Some code \<Rightarrow> switch_M p code v line)
      else if letter = CHR ''N'' then Inr (Some line, p)
      else call_unprocessed p letter v line)"

text \<open>
  \<^verbatim>\<open>gcodep_parse_line\<close> returns nothing; the model returns the parser it leaves, or the
  fault that stopped it. The loop need not end (the \<open>unprocessed\<close> callback chooses where
  it goes on): the result is \<open>None\<close> when it runs forever.
\<close>

partial_function (option) gcodep_parse_line ::
  "'u GCodeParser \<Rightarrow> cptr \<Rightarrow> (fault + 'u GCodeParser) option" where
  "gcodep_parse_line p line =
     (case parse_next_pair line of
        Inl f \<Rightarrow> Some (Inl f)
      | Inr (buffer, Null d) \<Rightarrow> Some (Inr p)
      | Inr (buffer, Parsed letter v remaining) \<Rightarrow>
          (case parse_line_body p letter v remaining of
             Inl f \<Rightarrow> Some (Inl f)
           | Inr (line', p') \<Rightarrow> gcodep_parse_line p' line'))"

text \<open>
  One turn of that loop, for a word the tokenizer returns and the body can handle: the
  parser and the \<^verbatim>\<open>line\<close> the next turn starts with. \<open>loop_turns k\<close> is \<open>k\<close> such turns
  one after the other.
\<close>

definition loop_turn :: "'u GCodeParser \<Rightarrow> cptr \<Rightarrow> ('u GCodeParser \<times> cptr) option" where
  "loop_turn p line =
     (case parse_next_pair line of
        Inl f \<Rightarrow> None
      | Inr (buffer, Null d) \<Rightarrow> None
      | Inr (buffer, Parsed letter v remaining) \<Rightarrow>
          (case parse_line_body p letter v remaining of
             Inl f \<Rightarrow> None
           | Inr (line', p') \<Rightarrow> Some (p', line')))"

fun loop_turns :: "nat \<Rightarrow> 'u GCodeParser \<Rightarrow> cptr \<Rightarrow> ('u GCodeParser \<times> cptr) option" where
  "loop_turns 0 p line = Some (p, line)"
| "loop_turns (Suc k) p line =
     (case loop_turn p line of
        None \<Rightarrow> None
      | Some (p', line') \<Rightarrow> loop_turns k p' line')"

section \<open>A caller that records the callbacks\<close>

text \<open>
  The actions the parser emits are the calls of its callbacks. This caller's context is
  the list of the calls so far; its \<open>unprocessed\<close> answers with \<open>reply\<close>.
\<close>

datatype action =
  GoHome "8 word"
| SetFeedrate cfloat
| SetFanspeed cfloat
| SetTemperature cfloat
| WaitTemperature
| DisableMotors
| CoordinatedMove "cfloat list"
| RapidMove "cfloat list"
| Unprocessed char cfloat "char list"

definition recorder ::
  "(char \<Rightarrow> cfloat \<Rightarrow> char list \<Rightarrow> char list option) \<Rightarrow> action list GCodeParserCb_arg" where
  "recorder reply =
     \<lparr>arg_go_home = Some (\<lambda>u flags. u @ [GoHome flags]),
      arg_set_feedrate = Some (\<lambda>u f. u @ [SetFeedrate f]),
      arg_set_fanspeed = Some (\<lambda>u f. u @ [SetFanspeed f]),
      arg_set_temperature = Some (\<lambda>u f. u @ [SetTemperature f]),
      arg_wait_temperature = Some (\<lambda>u. u @ [WaitTemperature]),
      arg_disable_motors = Some (\<lambda>u. u @ [DisableMotors]),
      arg_coordinated_move = Some (\<lambda>u axes. u @ [CoordinatedMove axes]),
      arg_rapid_move = Some (\<lambda>u axes. u @ [RapidMove axes]),
      arg_unprocessed =
        Some (\<lambda>u letter v remaining. (u @ [Unprocessed letter v remaining], reply letter v remaining))\<rparr>"

text \<open>A fresh parser for the recording caller, and the parser after a list of lines.\<close>

definition new_recorder ::
  "(char \<Rightarrow> cfloat \<Rightarrow> char list \<Rightarrow> char list option) \<Rightarrow> action list GCodeParser" where
  "new_recorder reply = gcodep_new (Some (recorder reply)) []"

fun parse_lines :: "'u GCodeParser \<Rightarrow> string list \<Rightarrow> (fault + 'u GCodeParser) option" where
  "parse_lines p [] = Some (Inr p)"
| "parse_lines p (l # ls) =
     (case gcodep_parse_line p (Some (c_str l)) of
        None \<Rightarrow> None
      | Some (Inl f) \<Rightarrow> Some (Inl f)
      | Some (Inr p') \<Rightarrow> parse_lines p' ls)"

declare gcodep_parse_line.simps [code]

section \<open>The words a handler consumes\<close>

text \<open>
  The description the spec gives of every handler: it consumes the words of the line
  whose letters are its parameters, and stops, without consuming it, at the first word
  with another letter, or where the tokenizer returns no word. \<open>param_words accept line\<close>
  is the list of the words consumed, with the pointer the handler returns.
\<close>

function param_words :: "(char \<Rightarrow> bool) \<Rightarrow> cptr \<Rightarrow> fault + ((char \<times> cfloat) list \<times> cptr)" where
  "param_words accept line =
     (case parse_next_pair line of
        Inl f \<Rightarrow> Inl f
      | Inr (line', Null d) \<Rightarrow> Inr ([], line')
      | Inr (line', Parsed letter v remaining_line) \<Rightarrow>
          if accept letter then
            (case param_words accept (Some remaining_line) of
               Inl f \<Rightarrow> Inl f
             | Inr (ws, rest) \<Rightarrow> Inr ((letter, v) # ws, rest))
          else Inr ([], line'))"
  by pat_completeness auto
termination
  by (relation "measure (\<lambda>(accept, line). cptr_size line)")
     (auto dest: parse_next_pair_smaller)

declare param_words.simps [simp del]

text \<open>The letters a handler takes as its own parameters.\<close>

definition is_axis_letter :: "char \<Rightarrow> bool" where
  "is_axis_letter c \<longleftrightarrow> c \<in> set ''XYZEABC''"

definition is_move_letter :: "char \<Rightarrow> bool" where
  "is_move_letter c \<longleftrightarrow> c \<in> set ''FXYZEABC''"

text \<open>The bit \<^verbatim>\<open>1 << AXIS_\<close>\<open>a\<close> of the axis a letter names.\<close>

definition axis_bit :: "char \<Rightarrow> 8 word" where
  "axis_bit c = (case axis_of_letter c of Some a \<Rightarrow> push_bit (axis_index a) 1 | None \<Rightarrow> 0)"

text \<open>What one word does to the parser in \<^verbatim>\<open>G92\<close> and in \<^verbatim>\<open>G0\<close>/\<^verbatim>\<open>G1\<close>.\<close>

definition rebase_word :: "'u GCodeParser \<Rightarrow> char \<times> cfloat \<Rightarrow> 'u GCodeParser" where
  "rebase_word p w =
     (case axis_of_letter (fst w) of
        Some a \<Rightarrow> p\<lparr>relative_zero := (relative_zero p)(a := f_sub (axes_pos p a) (f_mul (snd w) (unit_to_mm_factor p)))\<rparr>
      | None \<Rightarrow> p)"

definition move_word :: "'u GCodeParser \<Rightarrow> char \<times> cfloat \<Rightarrow> 'u GCodeParser" where
  "move_word p w =
     (if fst w = CHR ''F'' then move_feedrate p (f_mul (snd w) (unit_to_mm_factor p))
      else case axis_of_letter (fst w) of
        Some a \<Rightarrow> move_axis p a (f_mul (snd w) (unit_to_mm_factor p))
      | None \<Rightarrow> p)"


text \<open>
  The parser a \<^verbatim>\<open>G0\<close>/\<^verbatim>\<open>G1\<close> command leaves behind when it consumes the words \<open>ws\<close>: every
  word has its effect in turn, and then the move callback is called if one of the words
  was an axis word.
\<close>

definition move_result ::
  "'u GCodeParser \<Rightarrow> ('u \<Rightarrow> cfloat list \<Rightarrow> 'u) \<Rightarrow> (char \<times> cfloat) list \<Rightarrow> 'u GCodeParser" where
  "move_result p fun_move ws =
     (if list_ex (\<lambda>w. is_axis_letter (fst w)) ws
      then (foldl move_word p ws)
             \<lparr>cb_userdata :=
                fun_move (cb_userdata (foldl move_word p ws))
                  (reg_list (axes_pos (foldl move_word p ws)))\<rparr>
      else foldl move_word p ws)"

definition is_move_action :: "action \<Rightarrow> bool" where
  "is_move_action a = (case a of CoordinatedMove _ \<Rightarrow> True | RapidMove _ \<Rightarrow> True | _ \<Rightarrow> False)"

text \<open>
  The flags a \<^verbatim>\<open>G28\<close> command collects from the words \<open>ws\<close> it consumes (only their
  letters count), and the parser it leaves behind.
\<close>

definition home_flags :: "(char \<times> cfloat) list \<Rightarrow> 8 word" where
  "home_flags ws = foldl (\<lambda>flags w. flags OR axis_bit (fst w)) 0 ws"

definition home_result :: "'u GCodeParser \<Rightarrow> (char \<times> cfloat) list \<Rightarrow> 'u GCodeParser" where
  "home_result p ws =
     p\<lparr>axes_pos := zero_register,
       relative_zero := zero_register,
       cb_userdata :=
         go_home (callbacks p) (cb_userdata p)
           (if ws = [] then kAllAxesBitmap else home_flags ws)\<rparr>"

section \<open>Properties of the tokenizer\<close>

lemma isspace_NUL: "\<not> isspace NUL"
  by (simp add: isspace_def NUL_def)

lemma skip_whitespace_spaces:
  "list_all isspace ws \<Longrightarrow> skip_whitespace (ws @ l) = skip_whitespace l"
  by (induction ws) (auto simp: isspace_NUL)

text \<open>
  A word: white space, a letter, white space, and the first character \<open>n\<close> of the number
  field. The tokenizer gets to the hex workaround with \<^verbatim>\<open>line\<close> at \<open>n\<close>.
\<close>

lemma parse_next_pair_word:
  assumes "list_all isspace ws1" "\<not> isspace c" "c \<noteq> NUL" "c \<noteq> CHR '';''" "c \<noteq> CHR ''%''"
    "toupper c \<noteq> CHR ''*''" "list_all isspace ws2" "\<not> isspace n" "ws2 = [] \<longrightarrow> n \<noteq> NUL"
  shows "parse_next_pair (Some (ws1 @ c # ws2 @ n # l)) =
           parse_value (ws1 @ c # ws2 @ n # l) (toupper c) (n # l)"
proof -
  have "\<exists>d t. ws2 @ n # l = d # t \<and> d \<noteq> NUL"
  proof (cases ws2)
    case Nil
    then show ?thesis using assms(9) by simp
  next
    case (Cons a list)
    then have "isspace a" using assms(7) by simp
    then have "a \<noteq> NUL" using isspace_NUL by auto
    with Cons show ?thesis by simp
  qed
  then obtain d t where dt: "ws2 @ n # l = d # t" "d \<noteq> NUL" by blast
  have s2: "skip_whitespace (d # t) = Inr (n # l)"
    using assms(7,8) skip_whitespace_spaces [of ws2 "n # l"] by (simp add: dt)
  have s1: "skip_whitespace (ws1 @ c # d # t) = Inr (c # d # t)"
    using assms(1,2) by (simp add: skip_whitespace_spaces)
  have "parse_next_pair (Some (ws1 @ c # d # t)) =
          parse_value (ws1 @ c # d # t) (toupper c) (n # l)"
    unfolding parse_next_pair_def using assms(3-6) dt(2)
    by (simp add: s1 s2 del: skip_whitespace.simps)
  then show ?thesis by (simp add: dt)
qed

lemma isdigit_cases:
  "isdigit n \<Longrightarrow>
     n \<in> {CHR ''0'', CHR ''1'', CHR ''2'', CHR ''3'', CHR ''4'',
          CHR ''5'', CHR ''6'', CHR ''7'', CHR ''8'', CHR ''9''}"
  by (simp add: isdigit_def)

lemma isdigit_not_space: "isdigit n \<Longrightarrow> \<not> isspace n \<and> n \<noteq> NUL"
  by (drule isdigit_cases) (auto simp: isspace_def NUL_def)

text \<open>\<^verbatim>\<open>strtof\<close> on a string of one character.\<close>

lemma strtof_digit:
  "isdigit n \<Longrightarrow> strtof [n] = (Finite (of_nat (digits_val 10 [n])), 1)"
  by (drule isdigit_cases) (elim insertE emptyE; hypsubst; code_simp)

lemma strtof_nondigit:
  "\<not> isdigit n \<Longrightarrow> strtof [n] = (Finite 0, 0)"
  by (auto simp: strtof_def parse_number_def parse_inf_nan_def parse_hex_def parse_decimal_def
      parse_exponent_def Let_def split: list.splits option.splits if_splits)

text \<open>
  The hex workaround, for a number field that starts with \<open>n\<close> and has \<^verbatim>\<open>'x'\<close> or \<^verbatim>\<open>'X'\<close>
  behind it: \<^verbatim>\<open>strtof\<close> sees the string of the one character \<open>n\<close>.
\<close>

lemma parse_value_repair:
  assumes "x = CHR ''x'' \<or> x = CHR ''X''" and "n \<noteq> NUL"
  shows "parse_value (pre @ n # x # rest) letter (n # x # rest) =
           (if isdigit n then
              Inr (Some (pre @ n # CHR ''X'' # rest),
                   Parsed letter (Finite (of_nat (digits_val 10 [n]))) (CHR ''X'' # rest))
            else
              (case string_at (n # CHR ''X'' # rest) of
                 None \<Rightarrow> Inl OutOfBounds
               | Some text \<Rightarrow>
                   Inr (Some (pre @ n # CHR ''X'' # rest),
                        Null (Some (NotFollowedByNumber letter text)))))"
proof -
  have st: "string_at (n # NUL # rest) = Some [n]"
    using assms(2) by (simp add: string_at_def)
  have X: "\<not> isspace (CHR ''X'')" by (simp add: isspace_def)
  have XN: "CHR ''X'' \<noteq> NUL" by (simp add: NUL_def)
  show ?thesis
  proof (cases "isdigit n")
    case True
    then show ?thesis
      using assms X XN by (simp add: parse_value_def st strtof_digit Let_def)
  next
    case False
    then show ?thesis
      using assms by (simp add: parse_value_def st strtof_nondigit Let_def)
  qed
qed

lemma parse_next_pair_repair:
  assumes "list_all isspace ws1" and "\<not> isspace c" and "c \<noteq> NUL" and "c \<noteq> CHR '';''"
    and "c \<noteq> CHR ''%''" and "toupper c \<noteq> CHR ''*''" and "list_all isspace ws2"
    and "\<not> isspace n" and "n \<noteq> NUL" and "x = CHR ''x'' \<or> x = CHR ''X''"
  shows "parse_next_pair (Some (ws1 @ c # ws2 @ n # x # rest)) =
           (if isdigit n then
              Inr (Some (ws1 @ c # ws2 @ n # CHR ''X'' # rest),
                   Parsed (toupper c) (Finite (of_nat (digits_val 10 [n]))) (CHR ''X'' # rest))
            else
              (case string_at (n # CHR ''X'' # rest) of
                 None \<Rightarrow> Inl OutOfBounds
               | Some text \<Rightarrow>
                   Inr (Some (ws1 @ c # ws2 @ n # CHR ''X'' # rest),
                        Null (Some (NotFollowedByNumber (toupper c) text)))))"
proof -
  have "parse_next_pair (Some (ws1 @ c # ws2 @ n # x # rest)) =
          parse_value ((ws1 @ c # ws2) @ n # x # rest) (toupper c) (n # x # rest)"
    using parse_next_pair_word [OF assms(1-8), of "x # rest"] assms(9) by simp
  then show ?thesis
    using parse_value_repair [OF assms(10,9), of "ws1 @ c # ws2" rest "toupper c"]
    by (simp split: option.splits)
qed

lemma end_of_line: "parse_next_pair (Some (c_str [])) = Inr (Some (c_str []), Null None)"
  by code_simp

section \<open>The handlers consume their parameter words\<close>

lemma is_axis_letter_iff: "is_axis_letter c \<longleftrightarrow> axis_of_letter c \<noteq> None"
  by (auto simp: is_axis_letter_def axis_of_letter_def all_axes_def)

lemma is_move_letter_iff: "is_move_letter c \<longleftrightarrow> c = CHR ''F'' \<or> axis_of_letter c \<noteq> None"
  by (auto simp: is_move_letter_def axis_of_letter_def all_axes_def)

lemma handle_home_loop_words:
  "handle_home_loop line flags =
     (case param_words is_axis_letter line of
        Inl f \<Rightarrow> Inl f
      | Inr (ws, rest) \<Rightarrow> Inr (rest, foldl (\<lambda>fl w. fl OR axis_bit (fst w)) flags ws))"
proof (induction line flags rule: handle_home_loop.induct)
  case (1 line flags)
  note unfold = handle_home_loop.simps [of line flags] param_words.simps [of is_axis_letter line]
  show ?case
  proof (cases "parse_next_pair line")
    case (Inl f)
    from Inl show ?thesis unfolding unfold by simp
  next
    case (Inr r)
    obtain line' res where r: "r = (line', res)" by (cases r)
    show ?thesis
    proof (cases res)
      case (Null d)
      from Inr r Null show ?thesis unfolding unfold by simp
    next
      case (Parsed axis v rem)
      show ?thesis
      proof (cases "axis_of_letter axis")
        case None
        from Inr r Parsed None show ?thesis unfolding unfold by (simp add: is_axis_letter_iff)
      next
        case (Some a)
        have IH: "handle_home_loop (Some rem) (flags OR push_bit (axis_index a) 1) =
                    (case param_words is_axis_letter (Some rem) of
                       Inl f \<Rightarrow> Inl f
                     | Inr (ws, rest) \<Rightarrow>
                         Inr (rest, foldl (\<lambda>fl w. fl OR axis_bit (fst w))
                                      (flags OR push_bit (axis_index a) 1) ws))"
          using "1.IH" [OF Inr r [symmetric] Parsed Some] .
        show ?thesis
          using Inr r Parsed Some
          unfolding unfold
          by (simp add: is_axis_letter_iff IH axis_bit_def split: sum.splits del: push_bit_of_1)
      qed
    qed
  qed
qed

lemma handle_rebase_words:
  "handle_rebase p line =
     (case param_words is_axis_letter line of
        Inl f \<Rightarrow> Inl f
      | Inr (ws, rest) \<Rightarrow> Inr (rest, foldl rebase_word p ws))"
proof (induction p line rule: handle_rebase.induct)
  case (1 p line)
  note unfold = handle_rebase.simps [of p line] param_words.simps [of is_axis_letter line]
  show ?case
  proof (cases "parse_next_pair line")
    case (Inl f)
    from Inl show ?thesis unfolding unfold by simp
  next
    case (Inr r)
    obtain line' res where r: "r = (line', res)" by (cases r)
    show ?thesis
    proof (cases res)
      case (Null d)
      from Inr r Null show ?thesis unfolding unfold by simp
    next
      case (Parsed axis v rem)
      show ?thesis
      proof (cases "axis_of_letter axis")
        case None
        from Inr r Parsed None show ?thesis unfolding unfold by (simp add: is_axis_letter_iff)
      next
        case (Some a)
        define q where "q = rebase_word p (axis, v)"
        have q: "p\<lparr>relative_zero :=
                      (relative_zero p)
                        (a := f_sub (axes_pos p a) (f_mul v (unit_to_mm_factor p)))\<rparr> = q"
          by (simp add: q_def rebase_word_def Some)
        have IH: "handle_rebase q (Some rem) =
                    (case param_words is_axis_letter (Some rem) of
                       Inl f \<Rightarrow> Inl f
                     | Inr (ws, rest) \<Rightarrow> Inr (rest, foldl rebase_word q ws))"
          using "1.IH" [OF Inr r [symmetric] Parsed Some] by (simp only: q)
        show ?thesis
          using Inr r Parsed Some
          unfolding unfold by (simp add: is_axis_letter_iff q IH q_def [symmetric] split: sum.splits)
      qed
    qed
  qed
qed

lemma handle_move_loop_words:
  "handle_move_loop p line any_change =
     (case param_words is_move_letter line of
        Inl f \<Rightarrow> Inl f
      | Inr (ws, rest) \<Rightarrow>
          Inr (rest, foldl move_word p ws, any_change \<or> list_ex (\<lambda>w. fst w \<noteq> CHR ''F'') ws))"
proof (induction p line any_change rule: handle_move_loop.induct)
  case (1 p line any_change)
  note unfold = handle_move_loop.simps [of p line any_change]
    param_words.simps [of is_move_letter line]
  show ?case
  proof (cases "parse_next_pair line")
    case (Inl f)
    from Inl show ?thesis unfolding unfold by simp
  next
    case (Inr r)
    obtain line' res where r: "r = (line', res)" by (cases r)
    show ?thesis
    proof (cases res)
      case (Null d)
      from Inr r Null show ?thesis unfolding unfold by simp
    next
      case (Parsed axis v rem)
      define q where "q = move_word p (axis, v)"
      show ?thesis
      proof (cases "axis = CHR ''F''")
        case True
        have q: "move_feedrate p (f_mul v (unit_to_mm_factor p)) = q"
          by (simp add: q_def move_word_def True)
        have qF: "move_word p (CHR ''F'', v) = q"
          by (simp add: q_def True)
        have IH: "handle_move_loop q (Some rem) any_change =
                    (case param_words is_move_letter (Some rem) of
                       Inl f \<Rightarrow> Inl f
                     | Inr (ws, rest) \<Rightarrow>
                         Inr (rest, foldl move_word q ws,
                              any_change \<or> list_ex (\<lambda>w. fst w \<noteq> CHR ''F'') ws))"
          using "1.IH"(1) [OF Inr r [symmetric] Parsed True] by (simp only: q)
        show ?thesis
          using Inr r Parsed True
          unfolding unfold by (simp add: is_move_letter_iff q IH qF split: sum.splits)
      next
        case False
        show ?thesis
        proof (cases "axis_of_letter axis")
          case None
          from Inr r Parsed False None show ?thesis
            unfolding unfold by (simp add: is_move_letter_iff)
        next
          case (Some a)
          have q: "move_axis p a (f_mul v (unit_to_mm_factor p)) = q"
            by (simp add: q_def move_word_def False Some)
          have IH: "handle_move_loop q (Some rem) True =
                      (case param_words is_move_letter (Some rem) of
                         Inl f \<Rightarrow> Inl f
                       | Inr (ws, rest) \<Rightarrow> Inr (rest, foldl move_word q ws, True))"
            using "1.IH"(2) [OF Inr r [symmetric] Parsed False Some] by (simp only: q simp_thms)
          show ?thesis
            using Inr r Parsed False Some
            unfolding unfold by (simp add: is_move_letter_iff q IH q_def [symmetric] split: sum.splits)
        qed
      qed
    qed
  qed
qed

lemma param_words_accept:
  "param_words accept line = Inr (ws, rest) \<Longrightarrow> list_all (\<lambda>w. accept (fst w)) ws"
proof (induction accept line arbitrary: ws rest rule: param_words.induct)
  case (1 accept line)
  show ?case
  proof (cases "parse_next_pair line")
    case (Inl f)
    with "1.prems" show ?thesis by (simp add: param_words.simps [of accept line])
  next
    case (Inr r)
    obtain line' res where r: "r = (line', res)" by (cases r)
    show ?thesis
    proof (cases res)
      case (Null d)
      with "1.prems" Inr r show ?thesis by (simp add: param_words.simps [of accept line])
    next
      case (Parsed letter v rem)
      show ?thesis
      proof (cases "accept letter")
        case False
        with "1.prems" Inr r Parsed show ?thesis
          by (simp add: param_words.simps [of accept line])
      next
        case True
        from "1.prems" Inr r Parsed True obtain ws' where
          ws': "param_words accept (Some rem) = Inr (ws', rest)" "ws = (letter, v) # ws'"
          by (auto simp: param_words.simps [of accept line] split: sum.splits)
        from "1.IH" [OF Inr r [symmetric] Parsed True ws'(1)] ws'(2) True
        show ?thesis by simp
      qed
    qed
  qed
qed

lemma move_words_axis_iff:
  assumes "param_words is_move_letter line = Inr (ws, rest)"
  shows "list_ex (\<lambda>w. fst w \<noteq> CHR ''F'') ws \<longleftrightarrow> list_ex (\<lambda>w. is_axis_letter (fst w)) ws"
proof -
  have "list_all (\<lambda>w. is_move_letter (fst w)) ws"
    using param_words_accept [OF assms] .
  then have "\<forall>w \<in> set ws. (fst w \<noteq> CHR ''F'') = is_axis_letter (fst w)"
    by (auto simp: list_all_iff is_move_letter_def is_axis_letter_def)
  then show ?thesis by (auto simp: list_ex_iff)
qed

text \<open>What \<^verbatim>\<open>handle_move\<close> and \<^verbatim>\<open>handle_home\<close> do, by the words they consume.\<close>

lemma handle_move_words:
  "param_words is_move_letter line = Inr (ws, rest) \<Longrightarrow>
   handle_move p fun_move line =
     Inr (rest,
          if list_ex (\<lambda>w. fst w \<noteq> CHR ''F'') ws
          then (foldl move_word p ws)
                 \<lparr>cb_userdata :=
                    fun_move (cb_userdata (foldl move_word p ws))
                      (reg_list (axes_pos (foldl move_word p ws)))\<rparr>
          else foldl move_word p ws)"
  by (simp add: handle_move_def handle_move_loop_words)

lemma handle_move_result:
  "param_words is_move_letter line = Inr (ws, rest) \<Longrightarrow>
   handle_move p fun_move line = Inr (rest, move_result p fun_move ws)"
  by (simp add: handle_move_words move_result_def move_words_axis_iff)

section \<open>Unfolding the loop of \<^verbatim>\<open>gcodep_parse_line\<close>\<close>

lemma gcodep_parse_line_fault:
  "parse_next_pair line = Inl f \<Longrightarrow> gcodep_parse_line p line = Some (Inl f)"
  by (subst gcodep_parse_line.simps) simp

lemma gcodep_parse_line_null:
  "parse_next_pair line = Inr (buffer, Null d) \<Longrightarrow> gcodep_parse_line p line = Some (Inr p)"
  by (subst gcodep_parse_line.simps) simp

lemma gcodep_parse_line_NULL: "gcodep_parse_line p None = Some (Inr p)"
  by (rule gcodep_parse_line_null [of None None None]) (simp add: parse_next_pair_def)

lemma gcodep_parse_line_word:
  "parse_next_pair line = Inr (buffer, Parsed letter v remaining) \<Longrightarrow>
   parse_line_body p letter v remaining = Inr (line', p') \<Longrightarrow>
   gcodep_parse_line p line = gcodep_parse_line p' line'"
  by (subst gcodep_parse_line.simps) simp

lemma gcodep_parse_line_end [simp]: "gcodep_parse_line p (Some (c_str [])) = Some (Inr p)"
  by (rule gcodep_parse_line_null [OF end_of_line])

lemma gcodep_parse_line_rapid:
  assumes "parse_next_pair line = Inr (buffer, Parsed (CHR ''G'') v remaining)"
    and "float_to_int v = Some 0"
    and "param_words is_move_letter (Some remaining) = Inr (ws, rest)"
  shows "gcodep_parse_line p line =
           gcodep_parse_line (move_result p (rapid_move (callbacks p)) ws) rest"
proof -
  have "parse_line_body p (CHR ''G'') v remaining =
          Inr (rest, move_result p (rapid_move (callbacks p)) ws)"
    using assms(2) handle_move_result [OF assms(3)]
    by (simp add: parse_line_body_def switch_G_def)
  from gcodep_parse_line_word [OF assms(1) this] show ?thesis .
qed

lemma gcodep_parse_line_coordinated:
  assumes "parse_next_pair line = Inr (buffer, Parsed (CHR ''G'') v remaining)"
    and "float_to_int v = Some 1"
    and "param_words is_move_letter (Some remaining) = Inr (ws, rest)"
  shows "gcodep_parse_line p line =
           gcodep_parse_line (move_result p (coordinated_move (callbacks p)) ws) rest"
proof -
  have "parse_line_body p (CHR ''G'') v remaining =
          Inr (rest, move_result p (coordinated_move (callbacks p)) ws)"
    using assms(2) handle_move_result [OF assms(3)]
    by (simp add: parse_line_body_def switch_G_def)
  from gcodep_parse_line_word [OF assms(1) this] show ?thesis .
qed

section \<open>Evaluating examples\<close>

lemma new_recorder_callbacks [simp]:
  "go_home (callbacks (new_recorder reply)) u flags = u @ [GoHome flags]"
  "set_feedrate (callbacks (new_recorder reply)) u f = u @ [SetFeedrate f]"
  "set_fanspeed (callbacks (new_recorder reply)) u f = u @ [SetFanspeed f]"
  "set_temperature (callbacks (new_recorder reply)) u f = u @ [SetTemperature f]"
  "wait_temperature (callbacks (new_recorder reply)) u = u @ [WaitTemperature]"
  "disable_motors (callbacks (new_recorder reply)) u = u @ [DisableMotors]"
  "coordinated_move (callbacks (new_recorder reply)) u axes = u @ [CoordinatedMove axes]"
  "rapid_move (callbacks (new_recorder reply)) u axes = u @ [RapidMove axes]"
  "unprocessed (callbacks (new_recorder reply)) u letter v remaining =
     (u @ [Unprocessed letter v remaining], reply letter v remaining)"
  by (simp_all add: new_recorder_def gcodep_new_def recorder_def or_else_def
      set_all_axis_to_absolute_def)

lemma f_1_0_eq: "f_1_0 = Finite 1"
  by code_simp

lemma new_recorder_state [simp]:
  "cb_userdata (new_recorder reply) = []"
  "unit_to_mm_factor (new_recorder reply) = Finite 1"
  "axis_is_absolute (new_recorder reply) a = True"
  "current_feedrate (new_recorder reply) = Finite 0"
  "relative_zero (new_recorder reply) a = Finite 0"
  "axes_pos (new_recorder reply) a = Finite 0"
  by (simp_all add: new_recorder_def gcodep_new_def recorder_def or_else_def
      set_all_axis_to_absolute_def zero_register_def f_1_0_eq)

lemma axis_of_letter_simps [simp]:
  "axis_of_letter (CHR ''X'') = Some AXIS_X"
  "axis_of_letter (CHR ''Y'') = Some AXIS_Y"
  "axis_of_letter (CHR ''Z'') = Some AXIS_Z"
  "axis_of_letter (CHR ''E'') = Some AXIS_E"
  "axis_of_letter (CHR ''A'') = Some AXIS_A"
  "axis_of_letter (CHR ''B'') = Some AXIS_B"
  "axis_of_letter (CHR ''C'') = Some AXIS_C"
  "axis_of_letter (CHR ''F'') = None"
  by (simp_all add: axis_of_letter_def all_axes_def)

lemma float_to_int_small [simp]:
  "float_to_int (Finite 0) = Some 0"
  "float_to_int (Finite 1) = Some 1"
  "float_to_int (Finite 5) = Some 5"
  "float_to_int (Finite 28) = Some 28"
  "float_to_int (Finite 91) = Some 91"
  "float_to_int (Finite 92) = Some 92"
  by (simp_all add: float_to_int_def)

text \<open>Float arithmetic on the values of the examples.\<close>

lemma f_arith_eval [simp]:
  "f_mul (Finite 1) (Finite 1) = Finite 1"
  "f_mul (Finite 2) (Finite 1) = Finite 2"
  "f_mul (Finite 3) (Finite 1) = Finite 3"
  "f_mul (Finite 5) (Finite 1) = Finite 5"
  "f_mul (Finite 100) (Finite 1) = Finite 100"
  "f_add (Finite 0) (Finite 1) = Finite 1"
  "f_add (Finite 0) (Finite 2) = Finite 2"
  "f_add (Finite 0) (Finite 3) = Finite 3"
  "f_sub (Finite 3) (Finite 5) = Finite (- 2)"
  "f_add (Finite (- 2)) (Finite 5) = Finite 3"
  by code_simp+

lemma f_ne_Finite [simp]: "f_ne (Finite a) (Finite b) \<longleftrightarrow> a \<noteq> b"
  by (simp add: f_ne_def)

lemma move_word_callbacks [simp]: "callbacks (move_word p w) = callbacks p"
  by (simp add: move_word_def move_feedrate_def move_axis_def split: option.splits)

lemma foldl_move_word_callbacks [simp]: "callbacks (foldl move_word p ws) = callbacks p"
  by (induction ws arbitrary: p) simp_all

lemma move_result_fields [simp]:
  "unit_to_mm_factor (move_result p fun_move ws) = unit_to_mm_factor (foldl move_word p ws)"
  "current_feedrate (move_result p fun_move ws) = current_feedrate (foldl move_word p ws)"
  "callbacks (move_result p fun_move ws) = callbacks p"
  by (simp_all add: move_result_def)

lemmas eval_moves =
  move_result_def move_word_def move_axis_def move_feedrate_def is_axis_letter_def
  reg_list_def all_axes_def

section \<open>Homing (claim C1)\<close>

lemma axis_bit_nonzero: "is_axis_letter c \<Longrightarrow> axis_bit c \<noteq> 0"
  by (auto simp: is_axis_letter_def axis_bit_def axis_index_def)

lemma foldl_or_zero:
  "foldl (\<lambda>flags w. flags OR axis_bit (fst w)) (f :: 8 word) ws = 0 \<longleftrightarrow>
     f = 0 \<and> list_all (\<lambda>w. axis_bit (fst w) = 0) ws"
  by (induction ws arbitrary: f) (auto simp: or_eq_0_iff)

lemma home_flags_nonzero:
  assumes "list_all (\<lambda>w. is_axis_letter (fst w)) ws"
  shows "home_flags ws \<noteq> 0 \<longleftrightarrow> ws \<noteq> []"
proof (cases ws)
  case Nil
  then show ?thesis by (simp add: home_flags_def)
next
  case (Cons w ws')
  then have "axis_bit (fst w) \<noteq> 0"
    using assms axis_bit_nonzero by simp
  with Cons show ?thesis
    by (simp add: home_flags_def foldl_or_zero)
qed

lemma handle_home_result:
  assumes "param_words is_axis_letter line = Inr (ws, rest)"
  shows "handle_home p line = Inr (rest, home_result p ws)"
proof -
  have "home_flags ws \<noteq> 0 \<longleftrightarrow> ws \<noteq> []"
    by (rule home_flags_nonzero [OF param_words_accept [OF assms]])
  then show ?thesis
    using assms
    by (auto simp: handle_home_def handle_home_loop_words home_result_def home_flags_def Let_def)
qed

lemma kAllAxesBitmap_eq: "kAllAxesBitmap = 0x7F"
  by (simp add: kAllAxesBitmap_def axis_index_def)

lemma gcodep_parse_line_home:
  assumes "parse_next_pair line = Inr (buffer, Parsed (CHR ''G'') v remaining)"
    and "float_to_int v = Some 28"
    and "param_words is_axis_letter (Some remaining) = Inr (ws, rest)"
  shows "gcodep_parse_line p line = gcodep_parse_line (home_result p ws) rest"
proof -
  have "parse_line_body p (CHR ''G'') v remaining = Inr (rest, home_result p ws)"
    using assms(2) handle_home_result [OF assms(3)]
    by (simp add: parse_line_body_def switch_G_def)
  from gcodep_parse_line_word [OF assms(1) this] show ?thesis .
qed

lemma line_G28_X0:
  "gcodep_parse_line p (Some (c_str ''G28 X0'')) =
     Some (Inr (home_result p [(CHR ''X'', Finite 0)]))"
proof -
  have t: "parse_next_pair (Some (c_str ''G28 X0'')) =
             Inr (Some (c_str ''G28 X0''), Parsed (CHR ''G'') (Finite 28) (c_str ''X0''))"
    by code_simp
  have z: "float_to_int (Finite 28) = Some 28" by simp
  have w: "param_words is_axis_letter (Some (c_str ''X0'')) =
             Inr ([(CHR ''X'', Finite 0)], Some (c_str []))"
    by code_simp
  show ?thesis
    by (simp add: gcodep_parse_line_home [OF t z w])
qed

lemma line_G28:
  "gcodep_parse_line p (Some (c_str ''G28'')) = Some (Inr (home_result p []))"
proof -
  have t: "parse_next_pair (Some (c_str ''G28'')) =
             Inr (Some (c_str ''G28''), Parsed (CHR ''G'') (Finite 28) (c_str []))"
    by code_simp
  have z: "float_to_int (Finite 28) = Some 28" by simp
  have w: "param_words is_axis_letter (Some (c_str [])) = Inr ([], Some (c_str []))"
    by code_simp
  show ?thesis
    by (simp add: gcodep_parse_line_home [OF t z w])
qed

text \<open>
  In the line \<^verbatim>\<open>G28 X\<close> the letter X has no value: the tokenizer returns \<^verbatim>\<open>NULL\<close> for it,
  to the handler and then to the loop.
\<close>

lemma line_G28_X:
  "gcodep_parse_line p (Some (c_str ''G28 X'')) = Some (Inr (home_result p []))"
proof -
  have t: "parse_next_pair (Some (c_str ''G28 X'')) =
             Inr (Some (c_str ''G28 X''), Parsed (CHR ''G'') (Finite 28) (c_str ''X''))"
    by code_simp
  have z: "float_to_int (Finite 28) = Some 28" by simp
  have w: "param_words is_axis_letter (Some (c_str ''X'')) = Inr ([], Some (c_str ''X''))"
    by code_simp
  have e: "parse_next_pair (Some (c_str ''X'')) =
             Inr (Some (c_str ''X''), Null (Some (ExpectedValueAfter (CHR ''X''))))"
    by code_simp
  show ?thesis
    by (simp add: gcodep_parse_line_home [OF t z w] gcodep_parse_line_null [OF e])
qed

lemma home_flags_X: "home_flags [(CHR ''X'', v)] = push_bit (axis_index AXIS_X) 1"
  by (simp add: home_flags_def axis_bit_def)

text \<open>
  C1 (amended). For every \<^verbatim>\<open>G28\<close> command: the handler sets the position and the relative
  zero of all 7 axes to zero, whatever they were, and consumes the axis words that
  follow, up to the first word with another letter (returning the line from there); the
  values of the words are ignored. Then \<open>go_home\<close> is called exactly once, with the bits
  of the axes the words name, or with the bitmask of all 7 axes if there was no axis
  word. An axis word needs a value: the line \<^verbatim>\<open>G28 X0\<close> calls \<open>go_home\<close> with the X bit
  alone, while in the line \<^verbatim>\<open>G28 X\<close> the letter X is no word, and that line, as the line
  \<^verbatim>\<open>G28\<close>, calls \<open>go_home\<close> with the bitmask of all axes. All three set the stored
  positions of all axes to zero.
\<close>

theorem home_resets_all_axes_and_calls_go_home_once:
  assumes "param_words is_axis_letter (Some line) = Inr (ws, rest)"
    and "float_to_int v = Some 28"
  shows "parse_line_body p (CHR ''G'') v line = Inr (rest, home_result p ws) \<and>
         list_all (\<lambda>w. is_axis_letter (fst w)) ws \<and>
         home_result p ws =
           p\<lparr>axes_pos := zero_register,
             relative_zero := zero_register,
             cb_userdata :=
               go_home (callbacks p) (cb_userdata p)
                 (if ws = [] then kAllAxesBitmap else home_flags ws)\<rparr> \<and>
         home_flags ws = foldl (\<lambda>flags w. flags OR axis_bit (fst w)) 0 ws \<and>
         (\<forall>a. axes_pos (home_result p ws) a = Finite 0 \<and>
              relative_zero (home_result p ws) a = Finite 0) \<and>
         (\<forall>reply. callbacks p = callbacks (new_recorder reply) \<longrightarrow>
            cb_userdata (home_result p ws) =
              cb_userdata p @ [GoHome (if ws = [] then kAllAxesBitmap else home_flags ws)]) \<and>
         kAllAxesBitmap = 0x7F \<and>
         gcodep_parse_line p (Some (c_str ''G28 X0'')) =
           Some (Inr (home_result p [(CHR ''X'', Finite 0)])) \<and>
         home_flags [(CHR ''X'', Finite 0)] = push_bit (axis_index AXIS_X) 1 \<and>
         gcodep_parse_line p (Some (c_str ''G28'')) = Some (Inr (home_result p [])) \<and>
         gcodep_parse_line p (Some (c_str ''G28 X'')) = Some (Inr (home_result p []))"
proof -
  have 1: "parse_line_body p (CHR ''G'') v line = Inr (rest, home_result p ws)"
    using assms(2) handle_home_result [OF assms(1)]
    by (simp add: parse_line_body_def switch_G_def)
  have 2: "list_all (\<lambda>w. is_axis_letter (fst w)) ws"
    by (rule param_words_accept [OF assms(1)])
  have 3: "home_result p ws =
           p\<lparr>axes_pos := zero_register,
             relative_zero := zero_register,
             cb_userdata :=
               go_home (callbacks p) (cb_userdata p)
                 (if ws = [] then kAllAxesBitmap else home_flags ws)\<rparr>"
    by (simp add: home_result_def)
  have 4: "home_flags ws = foldl (\<lambda>flags w. flags OR axis_bit (fst w)) 0 ws"
    by (simp add: home_flags_def)
  have 5: "\<forall>a. axes_pos (home_result p ws) a = Finite 0 \<and>
              relative_zero (home_result p ws) a = Finite 0"
    by (simp add: home_result_def zero_register_def)
  have 6: "\<forall>reply. callbacks p = callbacks (new_recorder reply) \<longrightarrow>
            cb_userdata (home_result p ws) =
              cb_userdata p @ [GoHome (if ws = [] then kAllAxesBitmap else home_flags ws)]"
    by (simp add: home_result_def)
  show ?thesis
    by (intro conjI 1 2 3 4 5 6 kAllAxesBitmap_eq line_G28_X0 home_flags_X line_G28 line_G28_X)
qed

theorem home_resets_all_axes_and_calls_go_home_once_witness:
  "map_sum id (\<lambda>r. (fst r, cb_userdata (snd r), reg_list (axes_pos (snd r)),
                     reg_list (relative_zero (snd r))))
     (parse_line_body (new_recorder (\<lambda>letter v remaining. None)) (CHR ''G'') (Finite 28)
        (c_str ''X0 y5 M84'')) =
     Inr (Some (c_str ''M84''), [GoHome 3],
          [Finite 0, Finite 0, Finite 0, Finite 0, Finite 0, Finite 0, Finite 0],
          [Finite 0, Finite 0, Finite 0, Finite 0, Finite 0, Finite 0, Finite 0])"
proof -
  have w: "param_words is_axis_letter (Some (c_str ''X0 y5 M84'')) =
             Inr ([(CHR ''X'', Finite 0), (CHR ''Y'', Finite 5)], Some (c_str ''M84''))"
    by code_simp
  have z: "float_to_int (Finite 28) = Some 28" by simp
  have "parse_line_body (new_recorder (\<lambda>letter v remaining. None)) (CHR ''G'') (Finite 28)
          (c_str ''X0 y5 M84'') =
        Inr (Some (c_str ''M84''),
             home_result (new_recorder (\<lambda>letter v remaining. None))
               [(CHR ''X'', Finite 0), (CHR ''Y'', Finite 5)])"
    by (rule home_resets_all_axes_and_calls_go_home_once [OF w z, THEN conjunct1])
  then show ?thesis
    by (simp add: home_result_def home_flags_def axis_bit_def axis_index_def reg_list_def
        all_axes_def zero_register_def)
qed

text \<open>
  C1 as stated says the line \<^verbatim>\<open>G28 X\<close> emits \<open>go_home\<close> with only the X bit set. The parser
  calls \<open>go_home\<close> with the bitmask of all axes on that line.
\<close>

theorem home_G28_X_counterexample:
  "map_option (map_sum id cb_userdata)
     (gcodep_parse_line (new_recorder (\<lambda>letter v remaining. None)) (Some (c_str ''G28 X''))) =
     Some (Inr [GoHome kAllAxesBitmap]) \<and>
   kAllAxesBitmap \<noteq> push_bit (axis_index AXIS_X) 1"
  by (simp add: line_G28_X home_result_def kAllAxesBitmap_eq axis_index_def)

section \<open>Words the parser does not process (claim C2)\<close>

lemma switch_G_unprocessed:
  "code \<notin> {0, 1, 20, 21, 28, 90, 91, 92} \<Longrightarrow>
   switch_G p code v line = call_unprocessed p (CHR ''G'') v line"
  by (simp add: switch_G_def)

lemma switch_M_unprocessed:
  "code \<notin> {82, 83, 84, 104, 106, 107, 109, 116} \<Longrightarrow>
   switch_M p code v line = call_unprocessed p (CHR ''M'') v line"
  by (simp add: switch_M_def)

lemma parse_line_body_unprocessed:
  assumes "letter \<notin> {CHR ''G'', CHR ''M'', CHR ''N''} \<or>
           letter = CHR ''G'' \<and> float_to_int v = Some code \<and>
             code \<notin> {0, 1, 20, 21, 28, 90, 91, 92} \<or>
           letter = CHR ''M'' \<and> float_to_int v = Some code \<and>
             code \<notin> {82, 83, 84, 104, 106, 107, 109, 116}"
  shows "parse_line_body p letter v line = call_unprocessed p letter v line"
  using assms
  by (elim disjE conjE)
     (simp_all add: parse_line_body_def switch_G_unprocessed switch_M_unprocessed)

text \<open>
  C2 (amended). For every top-level word whose letter is not G, M or N, and for every G
  or M word whose code (the value cast to \<^verbatim>\<open>int\<close>) is none of the cases of its switch, the
  loop calls the \<open>unprocessed\<close> callback with the letter of the word, its value, and the
  remaining line behind the word, that is the text after the word was consumed. The loop
  goes on with the caller's context the callback leaves and from the pointer it
  returns; if that is \<^verbatim>\<open>NULL\<close>, the processing of the line ends there.
\<close>

theorem unprocessed_gets_the_line_behind_the_word:
  assumes "parse_next_pair line = Inr (buffer, Parsed letter v remaining)"
    and "letter \<notin> {CHR ''G'', CHR ''M'', CHR ''N''} \<or>
         letter = CHR ''G'' \<and> float_to_int v = Some code \<and>
           code \<notin> {0, 1, 20, 21, 28, 90, 91, 92} \<or>
         letter = CHR ''M'' \<and> float_to_int v = Some code \<and>
           code \<notin> {82, 83, 84, 104, 106, 107, 109, 116}"
    and "answer = unprocessed (callbacks p) (cb_userdata p) letter v remaining"
  shows "gcodep_parse_line p line =
           gcodep_parse_line (p\<lparr>cb_userdata := fst answer\<rparr>) (snd answer) \<and>
         (snd answer = None \<longrightarrow>
            gcodep_parse_line p line = Some (Inr (p\<lparr>cb_userdata := fst answer\<rparr>)))"
proof -
  have b: "parse_line_body p letter v remaining = Inr (snd answer, p\<lparr>cb_userdata := fst answer\<rparr>)"
    using parse_line_body_unprocessed [OF assms(2)] assms(3)
    by (simp add: call_unprocessed_def)
  have 1: "gcodep_parse_line p line =
           gcodep_parse_line (p\<lparr>cb_userdata := fst answer\<rparr>) (snd answer)"
    by (rule gcodep_parse_line_word [OF assms(1) b])
  then show ?thesis
    by (simp add: gcodep_parse_line_NULL)
qed

theorem unprocessed_gets_the_line_behind_the_word_witness:
  "parse_next_pair (Some (c_str ''M17 S1'')) =
     Inr (Some (c_str ''M17 S1''), Parsed (CHR ''M'') (Finite 17) (c_str ''S1'')) \<and>
   map_option (map_sum id cb_userdata)
     (gcodep_parse_line (new_recorder (\<lambda>letter v remaining. None)) (Some (c_str ''M17 S1''))) =
     Some (Inr [Unprocessed (CHR ''M'') (Finite 17) (c_str ''S1'')])"
proof -
  have t: "parse_next_pair (Some (c_str ''M17 S1'')) =
     Inr (Some (c_str ''M17 S1''), Parsed (CHR ''M'') (Finite 17) (c_str ''S1''))"
    by code_simp
  have c: "CHR ''M'' \<notin> {CHR ''G'', CHR ''M'', CHR ''N''} \<or>
         CHR ''M'' = CHR ''G'' \<and> float_to_int (Finite 17) = Some 17 \<and>
           (17::int) \<notin> {0, 1, 20, 21, 28, 90, 91, 92} \<or>
         CHR ''M'' = CHR ''M'' \<and> float_to_int (Finite 17) = Some 17 \<and>
           (17::int) \<notin> {82, 83, 84, 104, 106, 107, 109, 116}"
    by (simp add: float_to_int_def)
  have r: "gcodep_parse_line (new_recorder (\<lambda>letter v remaining. None))
             (Some (c_str ''M17 S1'')) =
           Some (Inr ((new_recorder (\<lambda>letter v remaining. None))
                        \<lparr>cb_userdata := [Unprocessed (CHR ''M'') (Finite 17) (c_str ''S1'')]\<rparr>))"
    using unprocessed_gets_the_line_behind_the_word
      [OF t c refl, of "new_recorder (\<lambda>letter v remaining. None)"]
    by (simp add: gcodep_parse_line_NULL)
  show ?thesis
    by (simp add: t r)
qed

text \<open>
  C2 as stated says the callback receives the remaining line text before the word was
  consumed. On the line \<^verbatim>\<open>J5 K6\<close> the callback is called for the word \<^verbatim>\<open>J5\<close> with the text
  \<^verbatim>\<open>K6\<close>, not with \<^verbatim>\<open>J5 K6\<close>.
\<close>

theorem unprocessed_text_counterexample:
  "map_option (map_sum id cb_userdata)
     (gcodep_parse_line (new_recorder (\<lambda>letter v remaining. None)) (Some (c_str ''J5 K6''))) =
     Some (Inr [Unprocessed (CHR ''J'') (Finite 5) (c_str ''K6'')]) \<and>
   c_str ''K6'' \<noteq> c_str ''J5 K6''"
proof -
  have t: "parse_next_pair (Some (c_str ''J5 K6'')) =
     Inr (Some (c_str ''J5 K6''), Parsed (CHR ''J'') (Finite 5) (c_str ''K6''))"
    by code_simp
  have b: "parse_line_body (new_recorder (\<lambda>letter v remaining. None)) (CHR ''J'') (Finite 5)
             (c_str ''K6'') =
           Inr (None, (new_recorder (\<lambda>letter v remaining. None))
                        \<lparr>cb_userdata := [Unprocessed (CHR ''J'') (Finite 5) (c_str ''K6'')]\<rparr>)"
    by (simp add: parse_line_body_def call_unprocessed_def)
  have r: "gcodep_parse_line (new_recorder (\<lambda>letter v remaining. None))
             (Some (c_str ''J5 K6'')) =
           Some (Inr ((new_recorder (\<lambda>letter v remaining. None))
                        \<lparr>cb_userdata := [Unprocessed (CHR ''J'') (Finite 5) (c_str ''K6'')]\<rparr>))"
    by (simp add: gcodep_parse_line_word [OF t b] gcodep_parse_line_NULL)
  have ne: "c_str ''K6'' \<noteq> c_str ''J5 K6''"
    by (simp add: c_str_def)
  show ?thesis
    by (simp add: r ne)
qed

section \<open>Move commands (claim C3)\<close>

lemma move_word_axis:
  "axis_of_letter l = Some a \<Longrightarrow>
   move_word p (l, x) =
     p\<lparr>axes_pos :=
         (axes_pos p)
           (a := if axis_is_absolute p a
                 then f_add (relative_zero p a) (f_mul x (unit_to_mm_factor p))
                 else f_add (axes_pos p a) (f_mul x (unit_to_mm_factor p)))\<rparr>"
  by (auto simp: move_word_def move_axis_def axis_of_letter_def all_axes_def)

lemma recorder_move_word_moves:
  "callbacks p = callbacks (new_recorder reply) \<Longrightarrow>
   filter is_move_action (cb_userdata (move_word p w)) = filter is_move_action (cb_userdata p)"
  by (simp add: move_word_def move_feedrate_def move_axis_def is_move_action_def
      split: option.splits)

lemma recorder_move_words_moves:
  "callbacks p = callbacks (new_recorder reply) \<Longrightarrow>
   filter is_move_action (cb_userdata (foldl move_word p ws)) =
     filter is_move_action (cb_userdata p)"
proof (induction ws arbitrary: p)
  case Nil
  show ?case by simp
next
  case (Cons w ws)
  have "callbacks (move_word p w) = callbacks (new_recorder reply)"
    using Cons.prems by simp
  from Cons.IH [OF this] recorder_move_word_moves [OF Cons.prems, of w]
  show ?case by simp
qed

lemma recorder_move_result_moves:
  assumes "callbacks p = callbacks (new_recorder reply)"
  shows "filter is_move_action (cb_userdata (move_result p (rapid_move (callbacks p)) ws)) =
           filter is_move_action (cb_userdata p) @
             (if list_ex (\<lambda>w. is_axis_letter (fst w)) ws
              then [RapidMove (reg_list (axes_pos (foldl move_word p ws)))] else [])"
    and "filter is_move_action (cb_userdata (move_result p (coordinated_move (callbacks p)) ws)) =
           filter is_move_action (cb_userdata p) @
             (if list_ex (\<lambda>w. is_axis_letter (fst w)) ws
              then [CoordinatedMove (reg_list (axes_pos (foldl move_word p ws)))] else [])"
  using recorder_move_words_moves [OF assms, of ws]
  by (simp_all add: move_result_def assms is_move_action_def)

lemma length_reg_list: "length (reg_list r) = 7"
  by (simp add: reg_list_def all_axes_def)

text \<open>
  C3. For every \<^verbatim>\<open>G0\<close> or \<^verbatim>\<open>G1\<close> command (a \<^verbatim>\<open>G\<close> word whose value casts to 0 or 1): the
  handler consumes the words \<open>ws\<close> that follow with letters among F, X, Y, Z, E, A, B, C,
  in any order, up to the first other letter, and returns the line from there; every
  word has its effect in turn; afterwards the move callback (\<open>rapid_move\<close> for \<^verbatim>\<open>G0\<close>,
  \<open>coordinated_move\<close> for \<^verbatim>\<open>G1\<close>) is called exactly once, with the whole position register
  of 7 values, if one of the words was an axis word, and not at all otherwise (only F
  words). An axis word sets the position of its axis to
  \<open>relative_zero + value * unit_to_mm_factor\<close> if the axis is absolute and to
  \<open>position + value * unit_to_mm_factor\<close> otherwise, and changes nothing else. For the
  recording caller, the moves recorded by the command are that one move, or none.
\<close>

theorem move_command_emits_one_move:
  assumes "param_words is_move_letter (Some line) = Inr (ws, rest)"
    and "float_to_int v = Some code"
    and "code = 0 \<and> fun_move = rapid_move (callbacks p) \<or>
         code = 1 \<and> fun_move = coordinated_move (callbacks p)"
  shows "parse_line_body p (CHR ''G'') v line = Inr (rest, move_result p fun_move ws) \<and>
         list_all (\<lambda>w. is_move_letter (fst w)) ws \<and>
         move_result p fun_move ws =
           (if list_ex (\<lambda>w. is_axis_letter (fst w)) ws
            then (foldl move_word p ws)
                   \<lparr>cb_userdata :=
                      fun_move (cb_userdata (foldl move_word p ws))
                        (reg_list (axes_pos (foldl move_word p ws)))\<rparr>
            else foldl move_word p ws) \<and>
         length (reg_list (axes_pos (foldl move_word p ws))) = 7 \<and>
         (\<forall>q l a x. axis_of_letter l = Some a \<longrightarrow>
            move_word q (l, x) =
              q\<lparr>axes_pos :=
                  (axes_pos q)
                    (a := if axis_is_absolute q a
                          then f_add (relative_zero q a) (f_mul x (unit_to_mm_factor q))
                          else f_add (axes_pos q a) (f_mul x (unit_to_mm_factor q)))\<rparr>) \<and>
         (\<forall>reply. callbacks p = callbacks (new_recorder reply) \<longrightarrow>
            filter is_move_action (cb_userdata (move_result p fun_move ws)) =
              filter is_move_action (cb_userdata p) @
                (if list_ex (\<lambda>w. is_axis_letter (fst w)) ws
                 then [(if code = 0 then RapidMove else CoordinatedMove)
                         (reg_list (axes_pos (foldl move_word p ws)))]
                 else []))"
proof -
  have 1: "parse_line_body p (CHR ''G'') v line = Inr (rest, move_result p fun_move ws)"
    using assms(2,3) handle_move_result [OF assms(1), of p fun_move]
    by (auto simp: parse_line_body_def switch_G_def)
  have 2: "list_all (\<lambda>w. is_move_letter (fst w)) ws"
    by (rule param_words_accept [OF assms(1)])
  have 3: "move_result p fun_move ws =
           (if list_ex (\<lambda>w. is_axis_letter (fst w)) ws
            then (foldl move_word p ws)
                   \<lparr>cb_userdata :=
                      fun_move (cb_userdata (foldl move_word p ws))
                        (reg_list (axes_pos (foldl move_word p ws)))\<rparr>
            else foldl move_word p ws)"
    by (simp add: move_result_def)
  have 4: "\<forall>reply. callbacks p = callbacks (new_recorder reply) \<longrightarrow>
            filter is_move_action (cb_userdata (move_result p fun_move ws)) =
              filter is_move_action (cb_userdata p) @
                (if list_ex (\<lambda>w. is_axis_letter (fst w)) ws
                 then [(if code = 0 then RapidMove else CoordinatedMove)
                         (reg_list (axes_pos (foldl move_word p ws)))]
                 else [])"
    using assms(3) recorder_move_result_moves [of p _ ws] by auto
  from 1 2 3 4 length_reg_list move_word_axis show ?thesis by blast
qed

theorem move_command_emits_one_move_witness:
  "map_sum id (\<lambda>r. (fst r, cb_userdata (snd r), reg_list (axes_pos (snd r))))
     (parse_line_body (new_recorder (\<lambda>letter v remaining. None)) (CHR ''G'') (Finite 1)
        (c_str ''X1 Y2'')) =
     Inr (Some (c_str []),
          [CoordinatedMove [Finite 1, Finite 2, Finite 0, Finite 0, Finite 0, Finite 0, Finite 0]],
          [Finite 1, Finite 2, Finite 0, Finite 0, Finite 0, Finite 0, Finite 0]) \<and>
   map_sum id (\<lambda>r. (fst r, cb_userdata (snd r), reg_list (axes_pos (snd r))))
     (parse_line_body (new_recorder (\<lambda>letter v remaining. None)) (CHR ''G'') (Finite 0)
        (c_str ''F100'')) =
     Inr (Some (c_str []),
          [SetFeedrate (Finite 100)],
          [Finite 0, Finite 0, Finite 0, Finite 0, Finite 0, Finite 0, Finite 0])"
proof -
  have w1: "param_words is_move_letter (Some (c_str ''X1 Y2'')) =
              Inr ([(CHR ''X'', Finite 1), (CHR ''Y'', Finite 2)], Some (c_str []))"
    by code_simp
  have w2: "param_words is_move_letter (Some (c_str ''F100'')) =
              Inr ([(CHR ''F'', Finite 100)], Some (c_str []))"
    by code_simp
  have 1: "parse_line_body (new_recorder (\<lambda>letter v remaining. None)) (CHR ''G'') (Finite 1)
             (c_str ''X1 Y2'') =
           Inr (Some (c_str []),
                move_result (new_recorder (\<lambda>letter v remaining. None))
                  (coordinated_move (callbacks (new_recorder (\<lambda>letter v remaining. None))))
                  [(CHR ''X'', Finite 1), (CHR ''Y'', Finite 2)])"
    by (rule move_command_emits_one_move [OF w1, where code = 1, THEN conjunct1]) simp_all
  have 2: "parse_line_body (new_recorder (\<lambda>letter v remaining. None)) (CHR ''G'') (Finite 0)
             (c_str ''F100'') =
           Inr (Some (c_str []),
                move_result (new_recorder (\<lambda>letter v remaining. None))
                  (rapid_move (callbacks (new_recorder (\<lambda>letter v remaining. None))))
                  [(CHR ''F'', Finite 100)])"
    by (rule move_command_emits_one_move [OF w2, where code = 0, THEN conjunct1]) simp_all
  show ?thesis
    unfolding 1 2 by (simp add: eval_moves)
qed

section \<open>The line \<^verbatim>\<open>G0X1\<close> (claim C4)\<close>

lemma rapid_G0X1:
  "gcodep_parse_line p (Some (c_str ''G0X1'')) =
     Some (Inr ((move_axis p AXIS_X (f_mul (Finite 1) (unit_to_mm_factor p)))
                  \<lparr>cb_userdata :=
                     rapid_move (callbacks p) (cb_userdata p)
                       (reg_list (axes_pos
                          (move_axis p AXIS_X (f_mul (Finite 1) (unit_to_mm_factor p)))))\<rparr>))"
proof -
  have t: "parse_next_pair (Some (c_str ''G0X1'')) =
             Inr (Some (c_str ''G0X1''), Parsed (CHR ''G'') (Finite 0) (c_str ''X1''))"
    by code_simp
  have w: "param_words is_move_letter (Some (c_str ''X1'')) =
             Inr ([(CHR ''X'', Finite 1)], Some (c_str []))"
    by code_simp
  have e: "parse_next_pair (Some (c_str [])) = Inr (Some (c_str []), Null None)"
    by code_simp
  have b: "parse_line_body p (CHR ''G'') (Finite 0) (c_str ''X1'') =
             Inr (Some (c_str []),
                  (move_axis p AXIS_X (f_mul (Finite 1) (unit_to_mm_factor p)))
                    \<lparr>cb_userdata :=
                       rapid_move (callbacks p) (cb_userdata p)
                         (reg_list (axes_pos
                            (move_axis p AXIS_X (f_mul (Finite 1) (unit_to_mm_factor p)))))\<rparr>)"
    by (simp add: parse_line_body_def switch_G_def handle_move_words [OF w] move_word_def
        move_axis_def)
  show ?thesis
    by (simp add: gcodep_parse_line_word [OF t b] gcodep_parse_line_null [OF e])
qed

text \<open>
  C4. The tokenizer reads \<^verbatim>\<open>"G0X1"\<close> as the pair (G, 0) followed by the pair (X, 1), and
  the line \<^verbatim>\<open>"G0X1"\<close> is a rapid move of the X axis by the value 1: the position of X is
  updated and \<open>rapid_move\<close> is called once with the position register. In general, when
  the character behind the first character (a digit) of the number field is \<^verbatim>\<open>'x'\<close> or
  \<^verbatim>\<open>'X'\<close>, the number is that one digit and the remaining line starts at the \<^verbatim>\<open>'X'\<close>.
\<close>

theorem G0X1_is_a_rapid_move:
  assumes "list_all isspace ws1" and "\<not> isspace c" and "c \<noteq> NUL" and "c \<noteq> CHR '';''"
    and "c \<noteq> CHR ''%''" and "toupper c \<noteq> CHR ''*''" and "list_all isspace ws2"
    and "isdigit n" and "x = CHR ''x'' \<or> x = CHR ''X''"
  shows "parse_next_pair (Some (ws1 @ c # ws2 @ n # x # rest)) =
           Inr (Some (ws1 @ c # ws2 @ n # CHR ''X'' # rest),
                Parsed (toupper c) (Finite (of_nat (digits_val 10 [n]))) (CHR ''X'' # rest)) \<and>
         parse_next_pair (Some (c_str ''G0X1'')) =
           Inr (Some (c_str ''G0X1''), Parsed (CHR ''G'') (Finite 0) (c_str ''X1'')) \<and>
         parse_next_pair (Some (c_str ''X1'')) =
           Inr (Some (c_str ''X1''), Parsed (CHR ''X'') (Finite 1) (c_str [])) \<and>
         gcodep_parse_line p (Some (c_str ''G0X1'')) =
           Some (Inr ((move_axis p AXIS_X (f_mul (Finite 1) (unit_to_mm_factor p)))
                        \<lparr>cb_userdata :=
                           rapid_move (callbacks p) (cb_userdata p)
                             (reg_list (axes_pos
                                (move_axis p AXIS_X
                                   (f_mul (Finite 1) (unit_to_mm_factor p)))))\<rparr>))"
proof -
  have n: "\<not> isspace n" "n \<noteq> NUL"
    using assms(8) isdigit_not_space by blast+
  have 1: "parse_next_pair (Some (ws1 @ c # ws2 @ n # x # rest)) =
           Inr (Some (ws1 @ c # ws2 @ n # CHR ''X'' # rest),
                Parsed (toupper c) (Finite (of_nat (digits_val 10 [n]))) (CHR ''X'' # rest))"
    using parse_next_pair_repair [OF assms(1-7) n assms(9), of rest] assms(8) by simp
  have 2: "parse_next_pair (Some (c_str ''G0X1'')) =
           Inr (Some (c_str ''G0X1''), Parsed (CHR ''G'') (Finite 0) (c_str ''X1''))"
    by code_simp
  have 3: "parse_next_pair (Some (c_str ''X1'')) =
           Inr (Some (c_str ''X1''), Parsed (CHR ''X'') (Finite 1) (c_str []))"
    by code_simp
  from 1 2 3 rapid_G0X1 [of p] show ?thesis by blast
qed

theorem G0X1_is_a_rapid_move_witness:
  "parse_next_pair (Some (c_str ''G0X1'')) =
     Inr (Some (c_str ''G0X1''), Parsed (CHR ''G'') (Finite 0) (c_str ''X1'')) \<and>
   parse_next_pair (Some (c_str ''X1'')) =
     Inr (Some (c_str ''X1''), Parsed (CHR ''X'') (Finite 1) (c_str [])) \<and>
   map_option (map_sum id (\<lambda>p. (cb_userdata p, reg_list (axes_pos p))))
     (gcodep_parse_line (new_recorder (\<lambda>letter v remaining. None)) (Some (c_str ''G0X1''))) =
     Some (Inr ([RapidMove [Finite 1, Finite 0, Finite 0, Finite 0, Finite 0, Finite 0, Finite 0]],
                [Finite 1, Finite 0, Finite 0, Finite 0, Finite 0, Finite 0, Finite 0]))"
  using G0X1_is_a_rapid_move
    [of "[]" "CHR ''G''" "[]" "CHR ''0''" "CHR ''X''" "c_str ''1''"
        "new_recorder (\<lambda>letter v remaining. None)"]
  by (simp add: isspace_def toupper_def NUL_def isdigit_def c_str_def move_axis_def reg_list_def
      all_axes_def digits_val_def hex_val_def)

section \<open>Malformed words (claim C5)\<close>

text \<open>The loop after some turns, at a word for which the tokenizer returns \<^verbatim>\<open>NULL\<close> or fails.\<close>

lemma gcodep_parse_line_turn:
  "loop_turn p line = Some (p', line') \<Longrightarrow>
   gcodep_parse_line p line = gcodep_parse_line p' line'"
  by (subst gcodep_parse_line.simps)
    (auto simp: loop_turn_def split: sum.splits pair_result.splits)

lemma gcodep_parse_line_turns:
  "loop_turns k p line = Some (p', line') \<Longrightarrow>
   gcodep_parse_line p line = gcodep_parse_line p' line'"
proof (induction k arbitrary: p line)
  case 0
  then show ?case by simp
next
  case (Suc k)
  then obtain q l where t: "loop_turn p line = Some (q, l)"
    and r: "loop_turns k q l = Some (p', line')"
    by (auto split: option.splits)
  show ?case
    using gcodep_parse_line_turn [OF t] Suc.IH [OF r] by simp
qed

lemma ends_the_line:
  assumes "parse_next_pair line = Inr (buffer, Null d)"
  shows "gcodep_parse_line p line = Some (Inr p) \<and>
         (\<forall>k p0 line0. loop_turns k p0 line0 = Some (p, line) \<longrightarrow>
            gcodep_parse_line p0 line0 = Some (Inr p))"
  using gcodep_parse_line_null [OF assms, of p] gcodep_parse_line_turns [of _ _ _ p line]
  by simp

lemma faults_the_line:
  assumes "parse_next_pair line = Inl f"
  shows "gcodep_parse_line p line = Some (Inl f) \<and>
         (\<forall>k p0 line0. loop_turns k p0 line0 = Some (p, line) \<longrightarrow>
            gcodep_parse_line p0 line0 = Some (Inl f))"
  using gcodep_parse_line_fault [OF assms, of p] gcodep_parse_line_turns [of _ _ _ p line]
  by simp

text \<open>A letter with the terminator right behind it.\<close>

lemma parse_next_pair_no_value:
  assumes "list_all isspace ws1" and "\<not> isspace c" and "c \<noteq> NUL" and "c \<noteq> CHR '';''"
    and "c \<noteq> CHR ''%''"
  shows "parse_next_pair (Some (ws1 @ c # NUL # rest)) =
           Inr (Some (ws1 @ c # NUL # rest), Null (Some (ExpectedValueAfter (toupper c))))"
proof -
  have s1: "skip_whitespace (ws1 @ c # NUL # rest) = Inr (c # NUL # rest)"
    using assms(1,2) by (simp add: skip_whitespace_spaces)
  show ?thesis
    unfolding parse_next_pair_def using assms(3-5)
    by (simp add: s1 del: skip_whitespace.simps)
qed

text \<open>
  A value field of which \<^verbatim>\<open>strtof\<close> takes nothing: the field as it stands, or its first
  character alone when \<^verbatim>\<open>'x'\<close> or \<^verbatim>\<open>'X'\<close> comes second.
\<close>

lemma parse_value_no_number:
  assumes "d \<noteq> CHR ''x''" and "d \<noteq> CHR ''X''" and "n \<noteq> NUL" and "NUL \<in> set (d # rest)"
    and "snd (strtof (n # takeWhile (\<lambda>a. a \<noteq> NUL) (d # rest))) = 0"
  shows "parse_value (pre @ n # d # rest) letter (n # d # rest) =
           Inr (Some (pre @ n # d # rest),
                Null (Some (NotFollowedByNumber letter
                  (n # takeWhile (\<lambda>a. a \<noteq> NUL) (d # rest)))))"
  using assms unfolding parse_value_def
  by (simp add: string_at_def Let_def)

lemma parse_value_no_number_x:
  assumes "d = CHR ''x'' \<or> d = CHR ''X''" and "n \<noteq> NUL" and "NUL \<in> set rest"
    and "\<not> isdigit n"
  shows "parse_value (pre @ n # d # rest) letter (n # d # rest) =
           Inr (Some (pre @ n # CHR ''X'' # rest),
                Null (Some (NotFollowedByNumber letter
                  (n # CHR ''X'' # takeWhile (\<lambda>a. a \<noteq> NUL) rest))))"
proof -
  have XN: "CHR ''X'' \<noteq> NUL" by (simp add: NUL_def)
  have "string_at (n # CHR ''X'' # rest) =
          Some (n # CHR ''X'' # takeWhile (\<lambda>a. a \<noteq> NUL) rest)"
    using assms(2,3) XN by (simp add: string_at_def)
  then show ?thesis
    using parse_value_repair [OF assms(1,2), of pre rest letter] assms(4) by simp
qed

lemma parse_next_pair_no_number:
  assumes "list_all isspace ws1" and "\<not> isspace c" and "c \<noteq> NUL" and "c \<noteq> CHR '';''"
    and "c \<noteq> CHR ''%''" and "toupper c \<noteq> CHR ''*''" and "list_all isspace ws2"
    and "\<not> isspace n" and "n \<noteq> NUL" and "d \<noteq> CHR ''x''" and "d \<noteq> CHR ''X''"
    and "NUL \<in> set (d # rest)"
    and "snd (strtof (n # takeWhile (\<lambda>a. a \<noteq> NUL) (d # rest))) = 0"
  shows "parse_next_pair (Some (ws1 @ c # ws2 @ n # d # rest)) =
           Inr (Some (ws1 @ c # ws2 @ n # d # rest),
                Null (Some (NotFollowedByNumber (toupper c)
                  (n # takeWhile (\<lambda>a. a \<noteq> NUL) (d # rest)))))"
proof -
  have "parse_next_pair (Some (ws1 @ c # ws2 @ n # d # rest)) =
          parse_value ((ws1 @ c # ws2) @ n # d # rest) (toupper c) (n # d # rest)"
    using parse_next_pair_word [OF assms(1-8), of "d # rest"] assms(9) by simp
  then show ?thesis
    using parse_value_no_number [OF assms(10,11,9,12,13), of "ws1 @ c # ws2" "toupper c"]
    by simp
qed

lemma parse_next_pair_no_number_x:
  assumes "list_all isspace ws1" and "\<not> isspace c" and "c \<noteq> NUL" and "c \<noteq> CHR '';''"
    and "c \<noteq> CHR ''%''" and "toupper c \<noteq> CHR ''*''" and "list_all isspace ws2"
    and "\<not> isspace n" and "n \<noteq> NUL" and "d = CHR ''x'' \<or> d = CHR ''X''"
    and "NUL \<in> set rest" and "\<not> isdigit n"
  shows "parse_next_pair (Some (ws1 @ c # ws2 @ n # d # rest)) =
           Inr (Some (ws1 @ c # ws2 @ n # CHR ''X'' # rest),
                Null (Some (NotFollowedByNumber (toupper c)
                  (n # CHR ''X'' # takeWhile (\<lambda>a. a \<noteq> NUL) rest))))"
proof -
  have "parse_next_pair (Some (ws1 @ c # ws2 @ n # d # rest)) =
          parse_value ((ws1 @ c # ws2) @ n # d # rest) (toupper c) (n # d # rest)"
    using parse_next_pair_word [OF assms(1-8), of "d # rest"] assms(9) by simp
  then show ?thesis
    using parse_value_no_number_x [OF assms(10,9,11,12), of "ws1 @ c # ws2" "toupper c"]
    by simp
qed

lemma strtof_no_number:
  assumes "\<not> isspace n" and "\<not> isdigit n" and "n \<notin> set ''+-.iInN''"
  shows "strtof (n # s) = (Finite 0, 0)"
  using assms
  by (auto simp: strtof_def parse_number_def parse_inf_nan_def parse_hex_def parse_decimal_def
      parse_exponent_def Let_def toupper_def isdigit_def split: list.splits option.splits if_splits)

text \<open>
  A letter, white space and the terminator: the field is empty, and the tokenizer reads
  the byte behind the terminator.
\<close>

lemma parse_value_empty_field:
  "parse_value (pre @ NUL # b # tail) letter (NUL # b # tail) =
     Inr (Some (pre @ NUL # (if b = CHR ''x'' \<or> b = CHR ''X'' then CHR ''X'' else b) # tail),
          Null (Some (NotFollowedByNumber letter [])))"
  by (simp add: parse_value_def string_at_def Let_def strtof_def parse_number_def
      parse_inf_nan_def parse_hex_def parse_decimal_def)

lemma parse_next_pair_empty_field:
  assumes "list_all isspace ws1" and "\<not> isspace c" and "c \<noteq> NUL" and "c \<noteq> CHR '';''"
    and "c \<noteq> CHR ''%''" and "toupper c \<noteq> CHR ''*''" and "list_all isspace ws2"
    and "ws2 \<noteq> []"
  shows "parse_next_pair (Some (ws1 @ c # ws2 @ NUL # b # tail)) =
           Inr (Some (ws1 @ c # ws2 @ NUL #
                  (if b = CHR ''x'' \<or> b = CHR ''X'' then CHR ''X'' else b) # tail),
                Null (Some (NotFollowedByNumber (toupper c) [])))"
    and "parse_next_pair (Some (ws1 @ c # ws2 @ [NUL])) = Inl OutOfBounds"
proof -
  have w: "ws2 = [] \<longrightarrow> NUL \<noteq> NUL" using assms(8) by simp
  have a: "parse_next_pair (Some (ws1 @ c # ws2 @ NUL # l)) =
             parse_value ((ws1 @ c # ws2) @ NUL # l) (toupper c) (NUL # l)" for l
    using parse_next_pair_word [OF assms(1-7) isspace_NUL w, of l] by simp
  show "parse_next_pair (Some (ws1 @ c # ws2 @ NUL # b # tail)) =
           Inr (Some (ws1 @ c # ws2 @ NUL #
                  (if b = CHR ''x'' \<or> b = CHR ''X'' then CHR ''X'' else b) # tail),
                Null (Some (NotFollowedByNumber (toupper c) [])))"
    using a [of "b # tail"] parse_value_empty_field [of "ws1 @ c # ws2" b tail "toupper c"]
    by simp
  show "parse_next_pair (Some (ws1 @ c # ws2 @ [NUL])) = Inl OutOfBounds"
    using a [of "[]"] by (simp add: parse_value_def)
qed

text \<open>Lines with a malformed word.\<close>

lemma line_G: "parse_next_pair (Some (c_str ''G'')) =
    Inr (Some (c_str ''G''), Null (Some (ExpectedValueAfter (CHR ''G''))))"
  by code_simp

lemma turns_G91_then_GA:
  "loop_turns (Suc 0) p (Some (c_str ''G91 GA G90'')) =
     Some (set_all_axis_to_absolute p False, Some (c_str ''GA G90''))"
proof -
  have t: "parse_next_pair (Some (c_str ''G91 GA G90'')) =
             Inr (Some (c_str ''G91 GA G90''), Parsed (CHR ''G'') (Finite 91) (c_str ''GA G90''))"
    by code_simp
  have b: "parse_line_body p (CHR ''G'') (Finite 91) (c_str ''GA G90'') =
             Inr (Some (c_str ''GA G90''), set_all_axis_to_absolute p False)"
    by (simp add: parse_line_body_def switch_G_def)
  show ?thesis
    by (simp add: loop_turn_def t b)
qed

lemma turns_G1_X5_then_Y:
  "loop_turns (Suc 0) p (Some (c_str ''G1 X5 Y'')) =
     Some (move_result p (coordinated_move (callbacks p)) [(CHR ''X'', Finite 5)],
           Some (c_str ''Y''))"
proof -
  have t: "parse_next_pair (Some (c_str ''G1 X5 Y'')) =
             Inr (Some (c_str ''G1 X5 Y''), Parsed (CHR ''G'') (Finite 1) (c_str ''X5 Y''))"
    by code_simp
  have w: "param_words is_move_letter (Some (c_str ''X5 Y'')) =
             Inr ([(CHR ''X'', Finite 5)], Some (c_str ''Y''))"
    by code_simp
  have b: "parse_line_body p (CHR ''G'') (Finite 1) (c_str ''X5 Y'') =
             Inr (Some (c_str ''Y''),
                  move_result p (coordinated_move (callbacks p)) [(CHR ''X'', Finite 5)])"
    using handle_move_result [OF w] by (simp add: parse_line_body_def switch_G_def)
  show ?thesis
    by (simp add: loop_turn_def t b)
qed

text \<open>
  C5. A malformed word ends the line there, and does nothing else. The tokenizer returns
  \<^verbatim>\<open>NULL\<close> with the diagnostic "expected value" for a letter that has the terminator
  right behind it, and with the diagnostic "not followed by a number" for a letter whose
  value field is one of which \<^verbatim>\<open>strtof\<close> takes nothing (the field is what \<^verbatim>\<open>strtof\<close> is
  given: its first character alone when \<^verbatim>\<open>'x'\<close> or \<^verbatim>\<open>'X'\<close> comes second); a field whose
  first character is no white space, digit, sign or point and none of \<^verbatim>\<open>i I n N\<close> is such
  a field. On such a word \<^verbatim>\<open>gcodep_parse_line\<close> returns the parser as it is: when the
  loop gets to the word after \<open>k\<close> turns, the result is the parser those turns have left
  (nothing is rolled back, nothing behind the word is processed, nothing fails). The
  line \<^verbatim>\<open>G\<close> leaves the whole parser, the caller's context included (no callback is
  called), as it was.

  One malformed word is different: a letter followed by white space and then the
  terminator (\<^verbatim>\<open>"G "\<close>, or \<^verbatim>\<open>"G"\<close> with the newline of its line). The tokenizer stands on
  the terminator and reads the byte behind it. In a buffer that has such a byte the
  line ends as for every other malformed word; in a buffer that ends with the
  terminator the read is out of bounds, and \<^verbatim>\<open>gcodep_parse_line\<close> fails with it, also
  after earlier words of the line.
\<close>

theorem malformed_word_stops_the_line:
  assumes "list_all isspace ws1" and "\<not> isspace c" and "c \<noteq> NUL" and "c \<noteq> CHR '';''"
    and "c \<noteq> CHR ''%''" and "list_all isspace ws2"
  shows
   "(parse_next_pair (Some (ws1 @ c # NUL # rest)) =
       Inr (Some (ws1 @ c # NUL # rest), Null (Some (ExpectedValueAfter (toupper c)))) \<and>
     gcodep_parse_line p (Some (ws1 @ c # NUL # rest)) = Some (Inr p) \<and>
     (\<forall>k p0 line0. loop_turns k p0 line0 = Some (p, Some (ws1 @ c # NUL # rest)) \<longrightarrow>
        gcodep_parse_line p0 line0 = Some (Inr p))) \<and>
    (toupper c \<noteq> CHR ''*'' \<and> \<not> isspace n \<and> n \<noteq> NUL \<and> d \<noteq> CHR ''x'' \<and> d \<noteq> CHR ''X'' \<and>
     NUL \<in> set (d # rest) \<and> snd (strtof (n # takeWhile (\<lambda>a. a \<noteq> NUL) (d # rest))) = 0 \<longrightarrow>
       parse_next_pair (Some (ws1 @ c # ws2 @ n # d # rest)) =
         Inr (Some (ws1 @ c # ws2 @ n # d # rest),
              Null (Some (NotFollowedByNumber (toupper c)
                (n # takeWhile (\<lambda>a. a \<noteq> NUL) (d # rest))))) \<and>
       gcodep_parse_line p (Some (ws1 @ c # ws2 @ n # d # rest)) = Some (Inr p) \<and>
       (\<forall>k p0 line0. loop_turns k p0 line0 = Some (p, Some (ws1 @ c # ws2 @ n # d # rest)) \<longrightarrow>
          gcodep_parse_line p0 line0 = Some (Inr p))) \<and>
    (toupper c \<noteq> CHR ''*'' \<and> \<not> isspace n \<and> n \<noteq> NUL \<and> \<not> isdigit n \<and>
     (d = CHR ''x'' \<or> d = CHR ''X'') \<and> NUL \<in> set rest \<longrightarrow>
       parse_next_pair (Some (ws1 @ c # ws2 @ n # d # rest)) =
         Inr (Some (ws1 @ c # ws2 @ n # CHR ''X'' # rest),
              Null (Some (NotFollowedByNumber (toupper c)
                (n # CHR ''X'' # takeWhile (\<lambda>a. a \<noteq> NUL) rest)))) \<and>
       gcodep_parse_line p (Some (ws1 @ c # ws2 @ n # d # rest)) = Some (Inr p) \<and>
       (\<forall>k p0 line0. loop_turns k p0 line0 = Some (p, Some (ws1 @ c # ws2 @ n # d # rest)) \<longrightarrow>
          gcodep_parse_line p0 line0 = Some (Inr p))) \<and>
    (toupper c \<noteq> CHR ''*'' \<and> ws2 \<noteq> [] \<longrightarrow>
       parse_next_pair (Some (c_str (ws1 @ c # ws2) @ b # tail)) =
         Inr (Some (c_str (ws1 @ c # ws2) @
                (if b = CHR ''x'' \<or> b = CHR ''X'' then CHR ''X'' else b) # tail),
              Null (Some (NotFollowedByNumber (toupper c) []))) \<and>
       gcodep_parse_line p (Some (c_str (ws1 @ c # ws2) @ b # tail)) = Some (Inr p) \<and>
       (\<forall>k p0 line0. loop_turns k p0 line0 = Some (p, Some (c_str (ws1 @ c # ws2) @ b # tail)) \<longrightarrow>
          gcodep_parse_line p0 line0 = Some (Inr p)) \<and>
       parse_next_pair (Some (c_str (ws1 @ c # ws2))) = Inl OutOfBounds \<and>
       gcodep_parse_line p (Some (c_str (ws1 @ c # ws2))) = Some (Inl OutOfBounds) \<and>
       (\<forall>k p0 line0. loop_turns k p0 line0 = Some (p, Some (c_str (ws1 @ c # ws2))) \<longrightarrow>
          gcodep_parse_line p0 line0 = Some (Inl OutOfBounds))) \<and>
    (\<not> isspace n \<and> \<not> isdigit n \<and> n \<notin> set ''+-.iInN'' \<longrightarrow> snd (strtof (n # s)) = 0) \<and>
    gcodep_parse_line p (Some (c_str ''G'')) = Some (Inr p)"
  (is "?K1 \<and> ?K2 \<and> ?K3 \<and> ?K4 \<and> ?K5 \<and> ?K6")
proof -
  note letter = assms(1-5)
  have k1: "parse_next_pair (Some (ws1 @ c # NUL # rest)) =
       Inr (Some (ws1 @ c # NUL # rest), Null (Some (ExpectedValueAfter (toupper c))))"
    by (rule parse_next_pair_no_value [OF letter])
  have k2: "parse_next_pair (Some (ws1 @ c # ws2 @ n # d # rest)) =
         Inr (Some (ws1 @ c # ws2 @ n # d # rest),
              Null (Some (NotFollowedByNumber (toupper c)
                (n # takeWhile (\<lambda>a. a \<noteq> NUL) (d # rest)))))"
    if "toupper c \<noteq> CHR ''*''" "\<not> isspace n" "n \<noteq> NUL" "d \<noteq> CHR ''x''" "d \<noteq> CHR ''X''"
      "NUL \<in> set (d # rest)" "snd (strtof (n # takeWhile (\<lambda>a. a \<noteq> NUL) (d # rest))) = 0"
    by (rule parse_next_pair_no_number [OF letter that(1) assms(6) that(2-7)])
  have k3: "parse_next_pair (Some (ws1 @ c # ws2 @ n # d # rest)) =
         Inr (Some (ws1 @ c # ws2 @ n # CHR ''X'' # rest),
              Null (Some (NotFollowedByNumber (toupper c)
                (n # CHR ''X'' # takeWhile (\<lambda>a. a \<noteq> NUL) rest))))"
    if "toupper c \<noteq> CHR ''*''" "\<not> isspace n" "n \<noteq> NUL" "\<not> isdigit n"
      "d = CHR ''x'' \<or> d = CHR ''X''" "NUL \<in> set rest"
    by (rule parse_next_pair_no_number_x [OF letter that(1) assms(6) that(2,3,5,6,4)])
  have k4: "parse_next_pair (Some (c_str (ws1 @ c # ws2) @ b # tail)) =
         Inr (Some (c_str (ws1 @ c # ws2) @
                (if b = CHR ''x'' \<or> b = CHR ''X'' then CHR ''X'' else b) # tail),
              Null (Some (NotFollowedByNumber (toupper c) [])))"
    if "toupper c \<noteq> CHR ''*''" "ws2 \<noteq> []"
    using parse_next_pair_empty_field(1) [OF letter that(1) assms(6) that(2), of b tail]
    by (simp add: c_str_def)
  have k5: "parse_next_pair (Some (c_str (ws1 @ c # ws2))) = Inl OutOfBounds"
    if "toupper c \<noteq> CHR ''*''" "ws2 \<noteq> []"
    using parse_next_pair_empty_field(2) [OF letter that(1) assms(6) that(2)]
    by (simp add: c_str_def)
  have k6: "snd (strtof (n # s)) = 0" if "\<not> isspace n" "\<not> isdigit n" "n \<notin> set ''+-.iInN''"
    using strtof_no_number [OF that] by simp
  have c1: ?K1
    using k1 ends_the_line [OF k1, of p] by simp
  have c2: ?K2
  proof (intro impI, elim conjE)
    assume h: "toupper c \<noteq> CHR ''*''" "\<not> isspace n" "n \<noteq> NUL" "d \<noteq> CHR ''x''" "d \<noteq> CHR ''X''"
      "NUL \<in> set (d # rest)" "snd (strtof (n # takeWhile (\<lambda>a. a \<noteq> NUL) (d # rest))) = 0"
    show "parse_next_pair (Some (ws1 @ c # ws2 @ n # d # rest)) =
         Inr (Some (ws1 @ c # ws2 @ n # d # rest),
              Null (Some (NotFollowedByNumber (toupper c)
                (n # takeWhile (\<lambda>a. a \<noteq> NUL) (d # rest))))) \<and>
       gcodep_parse_line p (Some (ws1 @ c # ws2 @ n # d # rest)) = Some (Inr p) \<and>
       (\<forall>k p0 line0. loop_turns k p0 line0 = Some (p, Some (ws1 @ c # ws2 @ n # d # rest)) \<longrightarrow>
          gcodep_parse_line p0 line0 = Some (Inr p))"
      using k2 [OF h] ends_the_line [OF k2 [OF h], of p] by simp
  qed
  have c3: ?K3
  proof (intro impI, elim conjE)
    assume h: "toupper c \<noteq> CHR ''*''" "\<not> isspace n" "n \<noteq> NUL" "\<not> isdigit n"
      "d = CHR ''x'' \<or> d = CHR ''X''" "NUL \<in> set rest"
    show "parse_next_pair (Some (ws1 @ c # ws2 @ n # d # rest)) =
         Inr (Some (ws1 @ c # ws2 @ n # CHR ''X'' # rest),
              Null (Some (NotFollowedByNumber (toupper c)
                (n # CHR ''X'' # takeWhile (\<lambda>a. a \<noteq> NUL) rest)))) \<and>
       gcodep_parse_line p (Some (ws1 @ c # ws2 @ n # d # rest)) = Some (Inr p) \<and>
       (\<forall>k p0 line0. loop_turns k p0 line0 = Some (p, Some (ws1 @ c # ws2 @ n # d # rest)) \<longrightarrow>
          gcodep_parse_line p0 line0 = Some (Inr p))"
      using k3 [OF h] ends_the_line [OF k3 [OF h], of p] by simp
  qed
  have c4: ?K4
  proof (intro impI, elim conjE)
    assume h: "toupper c \<noteq> CHR ''*''" "ws2 \<noteq> []"
    show "parse_next_pair (Some (c_str (ws1 @ c # ws2) @ b # tail)) =
         Inr (Some (c_str (ws1 @ c # ws2) @
                (if b = CHR ''x'' \<or> b = CHR ''X'' then CHR ''X'' else b) # tail),
              Null (Some (NotFollowedByNumber (toupper c) []))) \<and>
       gcodep_parse_line p (Some (c_str (ws1 @ c # ws2) @ b # tail)) = Some (Inr p) \<and>
       (\<forall>k p0 line0. loop_turns k p0 line0 = Some (p, Some (c_str (ws1 @ c # ws2) @ b # tail)) \<longrightarrow>
          gcodep_parse_line p0 line0 = Some (Inr p)) \<and>
       parse_next_pair (Some (c_str (ws1 @ c # ws2))) = Inl OutOfBounds \<and>
       gcodep_parse_line p (Some (c_str (ws1 @ c # ws2))) = Some (Inl OutOfBounds) \<and>
       (\<forall>k p0 line0. loop_turns k p0 line0 = Some (p, Some (c_str (ws1 @ c # ws2))) \<longrightarrow>
          gcodep_parse_line p0 line0 = Some (Inl OutOfBounds))"
      using k4 [OF h] ends_the_line [OF k4 [OF h], of p] k5 [OF h] faults_the_line [OF k5 [OF h], of p]
      by simp
  qed
  have c5: ?K5
    using k6 by simp
  have c6: ?K6
    using ends_the_line [OF line_G, of p] by simp
  show ?thesis
    by (intro conjI c1 c2 c3 c4 c5 c6)
qed

theorem malformed_word_stops_the_line_witness:
  "parse_next_pair (Some (c_str ''G'')) =
     Inr (Some (c_str ''G''), Null (Some (ExpectedValueAfter (CHR ''G'')))) \<and>
   gcodep_parse_line (new_recorder (\<lambda>letter v remaining. None)) (Some (c_str ''G'')) =
     Some (Inr (new_recorder (\<lambda>letter v remaining. None))) \<and>
   parse_next_pair (Some (c_str ''GA G90'')) =
     Inr (Some (c_str ''GA G90''), Null (Some (NotFollowedByNumber (CHR ''G'') ''A G90''))) \<and>
   map_option (map_sum id (\<lambda>p. (cb_userdata p, map (axis_is_absolute p) all_axes)))
     (gcodep_parse_line (new_recorder (\<lambda>letter v remaining. None))
        (Some (c_str ''G91 GA G90''))) =
     Some (Inr ([], [False, False, False, False, False, False, False])) \<and>
   map_option (map_sum id (\<lambda>p. (cb_userdata p, reg_list (axes_pos p))))
     (gcodep_parse_line (new_recorder (\<lambda>letter v remaining. None))
        (Some (c_str ''G1 X5 Y''))) =
     Some (Inr ([CoordinatedMove [Finite 5, Finite 0, Finite 0, Finite 0, Finite 0, Finite 0, Finite 0]],
                [Finite 5, Finite 0, Finite 0, Finite 0, Finite 0, Finite 0, Finite 0])) \<and>
   gcodep_parse_line (new_recorder (\<lambda>letter v remaining. None))
     (Some (c_str [CHR ''G'', CHR 0x0A])) = Some (Inl OutOfBounds) \<and>
   gcodep_parse_line (new_recorder (\<lambda>letter v remaining. None))
     (Some (c_str [CHR ''G'', CHR 0x0A] @ ''x'')) =
     Some (Inr (new_recorder (\<lambda>letter v remaining. None)))"
proof -
  define P where "P = new_recorder (\<lambda>letter v remaining. None)"
  have G: "list_all isspace []" "\<not> isspace (CHR ''G'')" "CHR ''G'' \<noteq> NUL" "CHR ''G'' \<noteq> CHR '';''"
    "CHR ''G'' \<noteq> CHR ''%''" "toupper (CHR ''G'') = CHR ''G''"
    by (simp_all add: isspace_def NUL_def toupper_def)
  have Y: "\<not> isspace (CHR ''Y'')" "CHR ''Y'' \<noteq> NUL" "CHR ''Y'' \<noteq> CHR '';''"
    "CHR ''Y'' \<noteq> CHR ''%''" "toupper (CHR ''Y'') = CHR ''Y''"
    by (simp_all add: isspace_def NUL_def toupper_def)
  have nl: "list_all isspace [CHR 0x0A]"
    by (simp add: isspace_def)
  note T1 = malformed_word_stops_the_line
    [OF G(1-5) G(1), where rest = "[]" and p = P]
  have a: "parse_next_pair (Some (c_str ''G'')) =
     Inr (Some (c_str ''G''), Null (Some (ExpectedValueAfter (CHR ''G''))))"
    using T1 by (simp add: c_str_def G(6))
  have b: "gcodep_parse_line P (Some (c_str ''G'')) = Some (Inr P)"
    using T1 by (simp add: c_str_def)
  note T2 = malformed_word_stops_the_line
    [OF G(1-5) G(1), where rest = "c_str ''G90''" and p = "set_all_axis_to_absolute P False"
      and n = "CHR ''A''" and d = "CHR '' ''"]
  have s: "snd (strtof ''A G90'') = 0"
    by code_simp
  have h2: "toupper (CHR ''G'') \<noteq> CHR ''*'' \<and> \<not> isspace (CHR ''A'') \<and> CHR ''A'' \<noteq> NUL \<and>
      CHR '' '' \<noteq> CHR ''x'' \<and> CHR '' '' \<noteq> CHR ''X'' \<and> NUL \<in> set (CHR '' '' # c_str ''G90'') \<and>
      snd (strtof (CHR ''A'' # takeWhile (\<lambda>a. a \<noteq> NUL) (CHR '' '' # c_str ''G90''))) = 0"
    using s by (simp add: G(6) isspace_def NUL_def c_str_def)
  note K2 = T2 [THEN conjunct2, THEN conjunct1, THEN mp, OF h2]
  have c: "parse_next_pair (Some (c_str ''GA G90'')) =
     Inr (Some (c_str ''GA G90''), Null (Some (NotFollowedByNumber (CHR ''G'') ''A G90'')))"
    using K2 [THEN conjunct1] by (simp add: c_str_def G(6) NUL_def)
  have t2: "loop_turns (Suc 0) P (Some (c_str ''G91 GA G90'')) =
      Some (set_all_axis_to_absolute P False,
            Some ([] @ CHR ''G'' # [] @ CHR ''A'' # CHR '' '' # c_str ''G90''))"
    using turns_G91_then_GA [of P] by (simp add: c_str_def)
  have "gcodep_parse_line P (Some (c_str ''G91 GA G90'')) =
          Some (Inr (set_all_axis_to_absolute P False))"
    by (rule K2 [THEN conjunct2, THEN conjunct2, rule_format, OF t2])
  then have d: "map_option (map_sum id (\<lambda>p. (cb_userdata p, map (axis_is_absolute p) all_axes)))
     (gcodep_parse_line P (Some (c_str ''G91 GA G90''))) =
     Some (Inr ([], [False, False, False, False, False, False, False]))"
    by (simp add: P_def set_all_axis_to_absolute_def all_axes_def)
  note T3 = malformed_word_stops_the_line
    [OF G(1) Y(1-4) G(1), where rest = "[]"
      and p = "move_result P (coordinated_move (callbacks P)) [(CHR ''X'', Finite 5)]"]
  have t3: "loop_turns (Suc 0) P (Some (c_str ''G1 X5 Y'')) =
      Some (move_result P (coordinated_move (callbacks P)) [(CHR ''X'', Finite 5)],
            Some ([] @ CHR ''Y'' # NUL # []))"
    using turns_G1_X5_then_Y [of P] by (simp add: c_str_def)
  have "gcodep_parse_line P (Some (c_str ''G1 X5 Y'')) =
          Some (Inr (move_result P (coordinated_move (callbacks P)) [(CHR ''X'', Finite 5)]))"
    by (rule T3 [THEN conjunct1, THEN conjunct2, THEN conjunct2, rule_format, OF t3])
  moreover have "f_add (Finite 0) (Finite 5) = Finite 5"
    by code_simp
  ultimately have e: "map_option (map_sum id (\<lambda>p. (cb_userdata p, reg_list (axes_pos p))))
     (gcodep_parse_line P (Some (c_str ''G1 X5 Y''))) =
     Some (Inr ([CoordinatedMove [Finite 5, Finite 0, Finite 0, Finite 0, Finite 0, Finite 0, Finite 0]],
                [Finite 5, Finite 0, Finite 0, Finite 0, Finite 0, Finite 0, Finite 0]))"
    by (simp add: P_def eval_moves)
  note T4 = malformed_word_stops_the_line
    [OF G(1-5) nl, where p = P and b = "CHR ''x''" and tail = "[]"]
  have h4: "toupper (CHR ''G'') \<noteq> CHR ''*'' \<and> [CHR 0x0A] \<noteq> []"
    by (simp add: G(6))
  note K4 = T4 [THEN conjunct2, THEN conjunct2, THEN conjunct2, THEN conjunct1, THEN mp, OF h4]
  have f: "gcodep_parse_line P (Some (c_str [CHR ''G'', CHR 0x0A])) = Some (Inl OutOfBounds)"
    using K4 by simp
  have g: "gcodep_parse_line P (Some (c_str [CHR ''G'', CHR 0x0A] @ ''x'')) = Some (Inr P)"
    using K4 by simp
  show ?thesis
    using a b c d e f g unfolding P_def by (intro conjI)
qed

section \<open>The feedrate (claim C6)\<close>

lemma handle_move_loop_F:
  "parse_next_pair line = Inr (buffer, Parsed (CHR ''F'') v remaining) \<Longrightarrow>
   handle_move_loop p line any_change =
     handle_move_loop (move_feedrate p (f_mul v (unit_to_mm_factor p))) (Some remaining)
       any_change"
  by (simp add: handle_move_loop.simps [of p line any_change])

lemma words_F100_X1:
  "param_words is_move_letter (Some (c_str ''F100 X1'')) =
     Inr ([(CHR ''F'', Finite 100), (CHR ''X'', Finite 1)], Some (c_str []))"
  by code_simp

lemma line_G1_F100_X1:
  "gcodep_parse_line p (Some (c_str ''G1 F100 X1'')) =
     Some (Inr (move_result p (coordinated_move (callbacks p))
                  [(CHR ''F'', Finite 100), (CHR ''X'', Finite 1)]))"
proof -
  have t: "parse_next_pair (Some (c_str ''G1 F100 X1'')) =
             Inr (Some (c_str ''G1 F100 X1''), Parsed (CHR ''G'') (Finite 1) (c_str ''F100 X1''))"
    by code_simp
  have z: "float_to_int (Finite 1) = Some 1" by simp
  show ?thesis
    by (simp add: gcodep_parse_line_coordinated [OF t z words_F100_X1])
qed

text \<open>The parser after the line \<^verbatim>\<open>G1 F100 X1\<close>, written out.\<close>

lemma move_result_F100_X1:
  "move_result p (coordinated_move (callbacks p)) [(CHR ''F'', Finite 100), (CHR ''X'', Finite 1)] =
     (move_axis (move_feedrate p (f_mul (Finite 100) (unit_to_mm_factor p))) AXIS_X
        (f_mul (Finite 1) (unit_to_mm_factor p)))
       \<lparr>cb_userdata :=
          coordinated_move (callbacks p)
            (cb_userdata (move_feedrate p (f_mul (Finite 100) (unit_to_mm_factor p))))
            (reg_list (axes_pos
               (move_axis (move_feedrate p (f_mul (Finite 100) (unit_to_mm_factor p))) AXIS_X
                  (f_mul (Finite 1) (unit_to_mm_factor p)))))\<rparr>"
  by (simp add: move_result_def move_word_def is_axis_letter_def move_axis_def move_feedrate_def)

lemma current_feedrate_move_feedrate:
  "uv \<noteq> NaN \<Longrightarrow> current_feedrate (move_feedrate p uv) = uv"
  by (auto simp: move_feedrate_def f_ne_def)

lemma second_F100_is_idle:
  assumes "f_mul (Finite 100) (unit_to_mm_factor p) \<noteq> NaN"
  shows "move_result
           (move_result p (coordinated_move (callbacks p))
              [(CHR ''F'', Finite 100), (CHR ''X'', Finite 1)])
           (coordinated_move (callbacks p)) [(CHR ''F'', Finite 100), (CHR ''X'', Finite 1)] =
         move_result
           (move_result p (coordinated_move (callbacks p))
              [(CHR ''F'', Finite 100), (CHR ''X'', Finite 1)])
           (coordinated_move (callbacks p)) [(CHR ''X'', Finite 1)]"
proof -
  define p1 where
    "p1 = move_result p (coordinated_move (callbacks p))
            [(CHR ''F'', Finite 100), (CHR ''X'', Finite 1)]"
  have u: "unit_to_mm_factor p1 = unit_to_mm_factor p"
    by (simp add: p1_def move_word_def move_axis_def move_feedrate_def)
  have f: "current_feedrate p1 = f_mul (Finite 100) (unit_to_mm_factor p)"
    using current_feedrate_move_feedrate [OF assms, of p]
    by (simp add: p1_def move_word_def move_axis_def)
  have "move_word p1 (CHR ''F'', Finite 100) = p1"
    using assms by (simp add: move_word_def move_feedrate_def u f f_ne_def)
  then have "move_result p1 (coordinated_move (callbacks p))
               [(CHR ''F'', Finite 100), (CHR ''X'', Finite 1)] =
             move_result p1 (coordinated_move (callbacks p)) [(CHR ''X'', Finite 1)]"
    by (simp add: move_result_def is_axis_letter_def)
  then show ?thesis
    by (simp only: p1_def)
qed

text \<open>
  C6. An F word of a \<^verbatim>\<open>G0\<close>/\<^verbatim>\<open>G1\<close> command scales its value by the unit factor, and only if
  the scaled value differs (\<^verbatim>\<open>!=\<close>) from the stored feedrate does it call \<open>set_feedrate\<close> and
  store the value; otherwise it does nothing. So the line \<^verbatim>\<open>G1 F100 X1\<close> calls
  \<open>set_feedrate\<close> if the stored feedrate differs from the scaled 100, and the same line
  processed next, by the parser as the first line left it, calls no \<open>set_feedrate\<close>: it
  does what \<^verbatim>\<open>G1 X1\<close> would do. A fresh parser records \<open>set_feedrate\<close> exactly once over the
  two lines, on the first.
\<close>

theorem feedrate_set_only_when_it_differs:
  assumes "f_mul (Finite 100) (unit_to_mm_factor p) \<noteq> NaN"
    and "p1 = move_result p (coordinated_move (callbacks p))
                [(CHR ''F'', Finite 100), (CHR ''X'', Finite 1)]"
  shows "(\<forall>q line buffer v remaining any_change.
            parse_next_pair line = Inr (buffer, Parsed (CHR ''F'') v remaining) \<longrightarrow>
            handle_move_loop q line any_change =
              handle_move_loop (move_feedrate q (f_mul v (unit_to_mm_factor q)))
                (Some remaining) any_change) \<and>
         (\<forall>q uv. move_feedrate q uv =
            (if f_ne (current_feedrate q) uv
             then q\<lparr>cb_userdata := set_feedrate (callbacks q) (cb_userdata q) uv,
                    current_feedrate := uv\<rparr>
             else q)) \<and>
         gcodep_parse_line p (Some (c_str ''G1 F100 X1'')) = Some (Inr p1) \<and>
         p1 =
           (move_axis (move_feedrate p (f_mul (Finite 100) (unit_to_mm_factor p))) AXIS_X
              (f_mul (Finite 1) (unit_to_mm_factor p)))
             \<lparr>cb_userdata :=
                coordinated_move (callbacks p)
                  (cb_userdata (move_feedrate p (f_mul (Finite 100) (unit_to_mm_factor p))))
                  (reg_list (axes_pos
                     (move_axis (move_feedrate p (f_mul (Finite 100) (unit_to_mm_factor p)))
                        AXIS_X (f_mul (Finite 1) (unit_to_mm_factor p)))))\<rparr> \<and>
         gcodep_parse_line p1 (Some (c_str ''G1 F100 X1'')) =
           Some (Inr (move_result p1 (coordinated_move (callbacks p1)) [(CHR ''X'', Finite 1)])) \<and>
         move_result p1 (coordinated_move (callbacks p1)) [(CHR ''X'', Finite 1)] =
           (move_axis p1 AXIS_X (f_mul (Finite 1) (unit_to_mm_factor p1)))
             \<lparr>cb_userdata :=
                coordinated_move (callbacks p1) (cb_userdata p1)
                  (reg_list (axes_pos
                     (move_axis p1 AXIS_X (f_mul (Finite 1) (unit_to_mm_factor p1)))))\<rparr>"
proof -
  have 1: "gcodep_parse_line p (Some (c_str ''G1 F100 X1'')) = Some (Inr p1)"
    by (simp add: assms(2) line_G1_F100_X1)
  have 2: "gcodep_parse_line p1 (Some (c_str ''G1 F100 X1'')) =
           Some (Inr (move_result p1 (coordinated_move (callbacks p1)) [(CHR ''X'', Finite 1)]))"
    unfolding assms(2) using second_F100_is_idle [OF assms(1)]
    by (simp add: line_G1_F100_X1)
  have 3: "move_result p1 (coordinated_move (callbacks p1)) [(CHR ''X'', Finite 1)] =
           (move_axis p1 AXIS_X (f_mul (Finite 1) (unit_to_mm_factor p1)))
             \<lparr>cb_userdata :=
                coordinated_move (callbacks p1) (cb_userdata p1)
                  (reg_list (axes_pos
                     (move_axis p1 AXIS_X (f_mul (Finite 1) (unit_to_mm_factor p1)))))\<rparr>"
    by (simp add: move_result_def move_word_def is_axis_letter_def move_axis_def)
  have 4: "\<forall>q line buffer v remaining any_change.
            parse_next_pair line = Inr (buffer, Parsed (CHR ''F'') v remaining) \<longrightarrow>
            handle_move_loop q line any_change =
              handle_move_loop (move_feedrate q (f_mul v (unit_to_mm_factor q)))
                (Some remaining) any_change"
    using handle_move_loop_F by blast
  have 5: "\<forall>q uv. move_feedrate q uv =
            (if f_ne (current_feedrate q) uv
             then q\<lparr>cb_userdata := set_feedrate (callbacks q) (cb_userdata q) uv,
                    current_feedrate := uv\<rparr>
             else q)"
    by (simp add: move_feedrate_def)
  have 6: "p1 =
           (move_axis (move_feedrate p (f_mul (Finite 100) (unit_to_mm_factor p))) AXIS_X
              (f_mul (Finite 1) (unit_to_mm_factor p)))
             \<lparr>cb_userdata :=
                coordinated_move (callbacks p)
                  (cb_userdata (move_feedrate p (f_mul (Finite 100) (unit_to_mm_factor p))))
                  (reg_list (axes_pos
                     (move_axis (move_feedrate p (f_mul (Finite 100) (unit_to_mm_factor p)))
                        AXIS_X (f_mul (Finite 1) (unit_to_mm_factor p)))))\<rparr>"
    unfolding assms(2) by (rule move_result_F100_X1)
  show ?thesis
    by (intro conjI 4 5 1 6 2 3)
qed

theorem feedrate_set_only_when_it_differs_witness:
  "map_option (map_sum id cb_userdata)
     (parse_lines (new_recorder (\<lambda>letter v remaining. None)) [''G1 F100 X1'']) =
     Some (Inr [SetFeedrate (Finite 100),
                CoordinatedMove [Finite 1, Finite 0, Finite 0, Finite 0, Finite 0, Finite 0, Finite 0]]) \<and>
   map_option (map_sum id cb_userdata)
     (parse_lines (new_recorder (\<lambda>letter v remaining. None)) [''G1 F100 X1'', ''G1 F100 X1'']) =
     Some (Inr [SetFeedrate (Finite 100),
                CoordinatedMove [Finite 1, Finite 0, Finite 0, Finite 0, Finite 0, Finite 0, Finite 0],
                CoordinatedMove [Finite 1, Finite 0, Finite 0, Finite 0, Finite 0, Finite 0, Finite 0]])"
proof -
  let ?P = "new_recorder (\<lambda>letter v remaining. None)"
  let ?P1 = "move_result ?P (coordinated_move (callbacks ?P))
               [(CHR ''F'', Finite 100), (CHR ''X'', Finite 1)]"
  have h: "f_mul (Finite 100) (unit_to_mm_factor ?P) \<noteq> NaN"
    by simp
  note T = feedrate_set_only_when_it_differs [OF h refl]
  have a: "gcodep_parse_line ?P (Some (c_str ''G1 F100 X1'')) = Some (Inr ?P1)"
    using T by blast
  have b: "gcodep_parse_line ?P1 (Some (c_str ''G1 F100 X1'')) =
             Some (Inr (move_result ?P1 (coordinated_move (callbacks ?P1))
                          [(CHR ''X'', Finite 1)]))"
    using T by blast
  show ?thesis
    by (simp add: a b) (simp add: eval_moves)
qed

section \<open>Redefining the origin (claim C7)\<close>

lemma rebase_word_axis:
  "axis_of_letter l = Some a \<Longrightarrow>
   rebase_word q (l, x) =
     q\<lparr>relative_zero :=
         (relative_zero q)(a := f_sub (axes_pos q a) (f_mul x (unit_to_mm_factor q)))\<rparr>"
  by (simp add: rebase_word_def)

lemma rebase_word_frame:
  "rebase_word q w = q\<lparr>relative_zero := relative_zero (rebase_word q w)\<rparr>"
  by (simp add: rebase_word_def split: option.splits)

lemma foldl_rebase_word_frame:
  "foldl rebase_word p ws = p\<lparr>relative_zero := relative_zero (foldl rebase_word p ws)\<rparr>"
proof (induction ws arbitrary: p)
  case Nil
  show ?case by simp
next
  case (Cons w ws)
  have "foldl rebase_word (rebase_word p w) ws =
          (rebase_word p w)\<lparr>relative_zero := relative_zero (foldl rebase_word (rebase_word p w) ws)\<rparr>"
    by (rule Cons.IH)
  also have "\<dots> = p\<lparr>relative_zero := relative_zero (foldl rebase_word (rebase_word p w) ws)\<rparr>"
    by (subst rebase_word_frame [of p w]) simp
  finally show ?case by simp
qed

lemma gcodep_parse_line_rebase:
  assumes "parse_next_pair line = Inr (buffer, Parsed (CHR ''G'') v remaining)"
    and "float_to_int v = Some 92"
    and "param_words is_axis_letter (Some remaining) = Inr (ws, rest)"
  shows "gcodep_parse_line p line = gcodep_parse_line (foldl rebase_word p ws) rest"
proof -
  have "parse_line_body p (CHR ''G'') v remaining = Inr (rest, foldl rebase_word p ws)"
    using assms(2) by (simp add: parse_line_body_def switch_G_def handle_rebase_words assms(3))
  from gcodep_parse_line_word [OF assms(1) this] show ?thesis .
qed

lemma line_G92_X5:
  "gcodep_parse_line p (Some (c_str ''G92 X5'')) =
     Some (Inr (rebase_word p (CHR ''X'', Finite 5)))"
proof -
  have t: "parse_next_pair (Some (c_str ''G92 X5'')) =
             Inr (Some (c_str ''G92 X5''), Parsed (CHR ''G'') (Finite 92) (c_str ''X5''))"
    by code_simp
  have z: "float_to_int (Finite 92) = Some 92" by simp
  have w: "param_words is_axis_letter (Some (c_str ''X5'')) =
             Inr ([(CHR ''X'', Finite 5)], Some (c_str []))"
    by code_simp
  show ?thesis
    by (simp add: gcodep_parse_line_rebase [OF t z w])
qed

lemma line_G1_X5:
  "gcodep_parse_line p (Some (c_str ''G1 X5'')) =
     Some (Inr (move_result p (coordinated_move (callbacks p)) [(CHR ''X'', Finite 5)]))"
proof -
  have t: "parse_next_pair (Some (c_str ''G1 X5'')) =
             Inr (Some (c_str ''G1 X5''), Parsed (CHR ''G'') (Finite 1) (c_str ''X5''))"
    by code_simp
  have z: "float_to_int (Finite 1) = Some 1" by simp
  have w: "param_words is_move_letter (Some (c_str ''X5'')) =
             Inr ([(CHR ''X'', Finite 5)], Some (c_str []))"
    by code_simp
  show ?thesis
    by (simp add: gcodep_parse_line_coordinated [OF t z w])
qed

lemma line_G1_X3:
  "gcodep_parse_line p (Some (c_str ''G1 X3'')) =
     Some (Inr (move_result p (coordinated_move (callbacks p)) [(CHR ''X'', Finite 3)]))"
proof -
  have t: "parse_next_pair (Some (c_str ''G1 X3'')) =
             Inr (Some (c_str ''G1 X3''), Parsed (CHR ''G'') (Finite 1) (c_str ''X3''))"
    by code_simp
  have z: "float_to_int (Finite 1) = Some 1" by simp
  have w: "param_words is_move_letter (Some (c_str ''X3'')) =
             Inr ([(CHR ''X'', Finite 3)], Some (c_str []))"
    by code_simp
  show ?thesis
    by (simp add: gcodep_parse_line_coordinated [OF t z w])
qed

lemma lines_G92_X5_G1_X5:
  "parse_lines p [''G92 X5'', ''G1 X5''] =
     Some (Inr (move_result (rebase_word p (CHR ''X'', Finite 5))
                  (coordinated_move (callbacks p)) [(CHR ''X'', Finite 5)]))"
  by (simp add: line_G92_X5 line_G1_X5 rebase_word_def)

lemma position_after_G92_X5_G1_X5:
  "axis_is_absolute p AXIS_X \<Longrightarrow>
   axes_pos (move_result (rebase_word p (CHR ''X'', Finite 5))
               (coordinated_move (callbacks p)) [(CHR ''X'', Finite 5)]) AXIS_X =
     f_add (f_sub (axes_pos p AXIS_X) (f_mul (Finite 5) (unit_to_mm_factor p)))
       (f_mul (Finite 5) (unit_to_mm_factor p))"
  by (simp add: move_result_def is_axis_letter_def move_word_def move_axis_def rebase_word_def)

lemma exact_subtraction_cancels:
  "round_f32 a = Finite a \<Longrightarrow> round_f32 (a - b) = Finite (a - b) \<Longrightarrow>
   f_add (f_sub (Finite a) (Finite b)) (Finite b) = Finite a"
  by (simp add: f_sub_def f_add_def f_neg_def)

text \<open>
  C7 (amended). For every \<^verbatim>\<open>G92\<close> command: the handler consumes the axis words that follow
  and sets, for each, \<open>relative_zero[axis] = position[axis] - value * unit_to_mm_factor\<close>, in
  float arithmetic; nothing else of the parser changes: no callback is called and the
  position stays. After \<^verbatim>\<open>G92 X5\<close> the line \<^verbatim>\<open>G1 X5\<close> with X absolute sets the position of
  X to \<open>(x - 5 * unit_to_mm_factor) + 5 * unit_to_mm_factor\<close>, each operation rounded to
  \<^verbatim>\<open>float\<close>, where \<open>x\<close> is the position of X before the \<^verbatim>\<open>G92\<close>. That is \<open>x\<close> again when the
  subtraction is exact (its result is a float), as it is for \<open>x = 3\<close>.
\<close>

theorem rebase_redefines_the_origin:
  assumes "param_words is_axis_letter (Some line) = Inr (ws, rest)"
    and "float_to_int v = Some 92"
  shows "parse_line_body p (CHR ''G'') v line = Inr (rest, foldl rebase_word p ws) \<and>
         list_all (\<lambda>w. is_axis_letter (fst w)) ws \<and>
         (\<forall>q l a x. axis_of_letter l = Some a \<longrightarrow>
            rebase_word q (l, x) =
              q\<lparr>relative_zero :=
                  (relative_zero q)
                    (a := f_sub (axes_pos q a) (f_mul x (unit_to_mm_factor q)))\<rparr>) \<and>
         foldl rebase_word p ws = p\<lparr>relative_zero := relative_zero (foldl rebase_word p ws)\<rparr> \<and>
         parse_lines p [''G92 X5'', ''G1 X5''] =
           Some (Inr (move_result (rebase_word p (CHR ''X'', Finite 5))
                        (coordinated_move (callbacks p)) [(CHR ''X'', Finite 5)])) \<and>
         (axis_is_absolute p AXIS_X \<longrightarrow>
            axes_pos (move_result (rebase_word p (CHR ''X'', Finite 5))
                        (coordinated_move (callbacks p)) [(CHR ''X'', Finite 5)]) AXIS_X =
              f_add (f_sub (axes_pos p AXIS_X) (f_mul (Finite 5) (unit_to_mm_factor p)))
                (f_mul (Finite 5) (unit_to_mm_factor p))) \<and>
         (\<forall>a b. round_f32 a = Finite a \<and> round_f32 (a - b) = Finite (a - b) \<longrightarrow>
            f_add (f_sub (Finite a) (Finite b)) (Finite b) = Finite a)"
proof -
  have 1: "parse_line_body p (CHR ''G'') v line = Inr (rest, foldl rebase_word p ws)"
    using assms(2) by (simp add: parse_line_body_def switch_G_def handle_rebase_words assms(1))
  have 2: "list_all (\<lambda>w. is_axis_letter (fst w)) ws"
    by (rule param_words_accept [OF assms(1)])
  have 3: "\<forall>q l a x. axis_of_letter l = Some a \<longrightarrow>
            rebase_word q (l, x) =
              q\<lparr>relative_zero :=
                  (relative_zero q)
                    (a := f_sub (axes_pos q a) (f_mul x (unit_to_mm_factor q)))\<rparr>"
    using rebase_word_axis by blast
  have 4: "axis_is_absolute p AXIS_X \<longrightarrow>
            axes_pos (move_result (rebase_word p (CHR ''X'', Finite 5))
                        (coordinated_move (callbacks p)) [(CHR ''X'', Finite 5)]) AXIS_X =
              f_add (f_sub (axes_pos p AXIS_X) (f_mul (Finite 5) (unit_to_mm_factor p)))
                (f_mul (Finite 5) (unit_to_mm_factor p))"
    using position_after_G92_X5_G1_X5 by blast
  have 5: "\<forall>a b. round_f32 a = Finite a \<and> round_f32 (a - b) = Finite (a - b) \<longrightarrow>
            f_add (f_sub (Finite a) (Finite b)) (Finite b) = Finite a"
    using exact_subtraction_cancels by blast
  show ?thesis
    by (intro conjI 1 2 3 foldl_rebase_word_frame lines_G92_X5_G1_X5 4 5)
qed

theorem rebase_redefines_the_origin_witness:
  "map_option (map_sum id (\<lambda>p. (axes_pos p AXIS_X, relative_zero p AXIS_X, cb_userdata p)))
     (parse_lines (new_recorder (\<lambda>letter v remaining. None)) [''G1 X3'', ''G92 X5'', ''G1 X5'']) =
     Some (Inr (Finite 3, Finite (- 2),
                [CoordinatedMove [Finite 3, Finite 0, Finite 0, Finite 0, Finite 0, Finite 0, Finite 0],
                 CoordinatedMove [Finite 3, Finite 0, Finite 0, Finite 0, Finite 0, Finite 0, Finite 0]]))"
proof -
  let ?P = "new_recorder (\<lambda>letter v remaining. None)"
  let ?P3 = "move_result ?P (coordinated_move (callbacks ?P)) [(CHR ''X'', Finite 3)]"
  have w: "param_words is_axis_letter (Some (c_str ''X5'')) =
             Inr ([(CHR ''X'', Finite 5)], Some (c_str []))"
    by code_simp
  have z: "float_to_int (Finite 92) = Some 92" by simp
  note T = rebase_redefines_the_origin [OF w z, of ?P3]
  have a: "parse_lines ?P3 [''G92 X5'', ''G1 X5''] =
             Some (Inr (move_result (rebase_word ?P3 (CHR ''X'', Finite 5))
                          (coordinated_move (callbacks ?P3)) [(CHR ''X'', Finite 5)]))"
    using T by blast
  have b: "parse_lines ?P [''G1 X3'', ''G92 X5'', ''G1 X5''] =
             parse_lines ?P3 [''G92 X5'', ''G1 X5'']"
    by (simp add: line_G1_X3 del: move_result_fields)
  show ?thesis
    unfolding b a by (simp add: eval_moves rebase_word_def)
qed

text \<open>
  C7 as stated says that for any prior position the X position after \<^verbatim>\<open>G92 X5\<close> and
  \<^verbatim>\<open>G1 X5\<close> is what it was before the \<^verbatim>\<open>G92\<close>. From the position the line \<^verbatim>\<open>G1 X0.0000001\<close>
  reaches, the float nearest to 0.0000001, the two lines take X to 0: the subtraction
  of 5 rounds to -5.
\<close>

theorem rebase_rounding_counterexample:
  "map_option (map_sum id (\<lambda>p. axes_pos p AXIS_X))
     (parse_lines (new_recorder (\<lambda>letter v remaining. None)) [''G1 X0.0000001'']) =
     Some (Inr (Finite (14073749 / 140737488355328))) \<and>
   map_option (map_sum id (\<lambda>p. axes_pos p AXIS_X))
     (parse_lines (new_recorder (\<lambda>letter v remaining. None))
        [''G1 X0.0000001'', ''G92 X5'', ''G1 X5'']) =
     Some (Inr (Finite 0)) \<and>
   Finite (14073749 / 140737488355328) \<noteq> Finite 0"
  by code_simp

section \<open>The command code (claim C8)\<close>

lemma float_to_int_truncates:
  "float_to_int v = Some code \<Longrightarrow>
   \<exists>x. v = Finite x \<and> code = (if 0 \<le> x then \<lfloor>\<bar>x\<bar>\<rfloor> else - \<lfloor>\<bar>x\<bar>\<rfloor>)"
  by (cases v) (auto simp: float_to_int_def Let_def ceiling_def split: if_splits)

lemma words_X1:
  "param_words is_move_letter (Some (c_str ''X1'')) =
     Inr ([(CHR ''X'', Finite 1)], Some (c_str []))"
  by code_simp

lemma float_0_9: "strtof ''0.9'' = (Finite (7549747 / 8388608), 3)"
  by code_simp

lemma float_to_int_0_9: "float_to_int (Finite (7549747 / 8388608)) = Some 0"
  by code_simp

lemma line_G0_9_X1:
  "gcodep_parse_line p (Some (c_str ''G0.9 X1'')) =
     Some (Inr (move_result p (rapid_move (callbacks p)) [(CHR ''X'', Finite 1)]))"
proof -
  have t: "parse_next_pair (Some (c_str ''G0.9 X1'')) =
             Inr (Some (c_str ''G0.9 X1''),
                  Parsed (CHR ''G'') (Finite (7549747 / 8388608)) (c_str ''X1''))"
    by code_simp
  show ?thesis
    by (simp add: gcodep_parse_line_rapid [OF t float_to_int_0_9 words_X1])
qed

lemma line_G0_X1:
  "gcodep_parse_line p (Some (c_str ''G0 X1'')) =
     Some (Inr (move_result p (rapid_move (callbacks p)) [(CHR ''X'', Finite 1)]))"
proof -
  have t: "parse_next_pair (Some (c_str ''G0 X1'')) =
             Inr (Some (c_str ''G0 X1''), Parsed (CHR ''G'') (Finite 0) (c_str ''X1''))"
    by code_simp
  have z: "float_to_int (Finite 0) = Some 0" by simp
  show ?thesis
    by (simp add: gcodep_parse_line_rapid [OF t z words_X1])
qed

text \<open>
  C8. For every \<^verbatim>\<open>G\<close> or \<^verbatim>\<open>M\<close> word whose value the cast \<^verbatim>\<open>(int) value\<close> is defined on, the
  case of the switch is chosen by the value truncated toward zero: the cast yields the
  integer of the same sign whose magnitude is the floor of the magnitude of the value,
  and the loop body is the switch on that integer. A \<^verbatim>\<open>G\<close> word whose value truncates to 0
  runs the \<^verbatim>\<open>G0\<close> handler; \<^verbatim>\<open>strtof\<close> reads \<^verbatim>\<open>"0.9"\<close> as the float nearest to 0.9, which
  truncates to 0, and the line \<^verbatim>\<open>"G0.9 X1"\<close> does what the line \<^verbatim>\<open>"G0 X1"\<close> does: a rapid
  move.
\<close>

theorem command_code_is_truncated_value:
  assumes "float_to_int v = Some code"
  shows "(\<exists>x. v = Finite x \<and> code = (if 0 \<le> x then \<lfloor>\<bar>x\<bar>\<rfloor> else - \<lfloor>\<bar>x\<bar>\<rfloor>)) \<and>
         parse_line_body p (CHR ''G'') v line = switch_G p code v line \<and>
         parse_line_body p (CHR ''M'') v line = switch_M p code v line \<and>
         switch_G p 0 v line = handle_move p (rapid_move (callbacks p)) (Some line) \<and>
         strtof ''0.9'' = (Finite (7549747 / 8388608), 3) \<and>
         float_to_int (Finite (7549747 / 8388608)) = Some 0 \<and>
         gcodep_parse_line p (Some (c_str ''G0.9 X1'')) =
           Some (Inr (move_result p (rapid_move (callbacks p)) [(CHR ''X'', Finite 1)])) \<and>
         gcodep_parse_line p (Some (c_str ''G0.9 X1'')) =
           gcodep_parse_line p (Some (c_str ''G0 X1''))"
proof -
  have 1: "parse_line_body p (CHR ''G'') v line = switch_G p code v line"
    using assms by (simp add: parse_line_body_def)
  have 2: "parse_line_body p (CHR ''M'') v line = switch_M p code v line"
    using assms by (simp add: parse_line_body_def)
  have 3: "switch_G p 0 v line = handle_move p (rapid_move (callbacks p)) (Some line)"
    by (simp add: switch_G_def)
  have 4: "gcodep_parse_line p (Some (c_str ''G0.9 X1'')) =
           gcodep_parse_line p (Some (c_str ''G0 X1''))"
    by (simp only: line_G0_9_X1 line_G0_X1)
  from float_to_int_truncates [OF assms] 1 2 3 4 float_0_9 float_to_int_0_9 line_G0_9_X1 [of p]
  show ?thesis by blast
qed

theorem command_code_is_truncated_value_witness:
  "float_to_int (Finite (7549747 / 8388608)) = Some 0 \<and>
   parse_line_body (new_recorder (\<lambda>letter v remaining. None)) (CHR ''G'')
     (Finite (7549747 / 8388608)) (c_str ''X1'') =
     handle_move (new_recorder (\<lambda>letter v remaining. None))
       (rapid_move (callbacks (new_recorder (\<lambda>letter v remaining. None)))) (Some (c_str ''X1'')) \<and>
   map_option (map_sum id cb_userdata)
     (gcodep_parse_line (new_recorder (\<lambda>letter v remaining. None)) (Some (c_str ''G0.9 X1''))) =
     Some (Inr [RapidMove [Finite 1, Finite 0, Finite 0, Finite 0, Finite 0, Finite 0, Finite 0]])"
  using command_code_is_truncated_value
    [OF float_to_int_0_9, of "new_recorder (\<lambda>letter v remaining. None)" "c_str ''X1''"]
  by (simp add: eval_moves)

section \<open>The tokenizer at the end of the string (claim C9)\<close>

lemma parse_value_at_terminator:
  "parse_value line0 letter [NUL] = Inl OutOfBounds"
  by (simp add: parse_value_def)

lemma parse_value_behind_terminator:
  "parse_value (pre @ [NUL, b]) letter [NUL, b] =
     Inr (Some (pre @ [NUL, if b = CHR ''x'' \<or> b = CHR ''X'' then CHR ''X'' else b]),
          Null (Some (NotFollowedByNumber letter [])))"
  by (simp add: parse_value_def string_at_def Let_def strtof_def parse_number_def
      parse_inf_nan_def parse_hex_def parse_decimal_def)

text \<open>
  C9. When the letter of a word is followed by white space and then by the end of the
  string (as in the line \<^verbatim>\<open>"G "\<close>), the tokenizer stands on the terminator when it gets
  to the hex workaround, and reads \<^verbatim>\<open>*(line+1)\<close> all the same: a character behind the end
  of the string. In a buffer that ends with the terminator the read is out of bounds,
  for the tokenizer and so for \<^verbatim>\<open>gcodep_parse_line\<close>; in a buffer with one more byte \<open>b\<close>
  the result depends on \<open>b\<close>, which the workaround even overwrites with \<^verbatim>\<open>'X'\<close> when it
  is \<^verbatim>\<open>'x'\<close>.
\<close>

theorem tokenizer_reads_behind_terminator:
  assumes "list_all isspace ws1" and "\<not> isspace c" and "c \<noteq> NUL" and "c \<noteq> CHR '';''"
    and "c \<noteq> CHR ''%''" and "toupper c \<noteq> CHR ''*''" and "list_all isspace ws2" and "ws2 \<noteq> []"
  shows "parse_next_pair (Some (c_str (ws1 @ c # ws2))) = Inl OutOfBounds \<and>
         gcodep_parse_line p (Some (c_str (ws1 @ c # ws2))) = Some (Inl OutOfBounds) \<and>
         parse_next_pair (Some (c_str (ws1 @ c # ws2) @ [b])) =
           Inr (Some (c_str (ws1 @ c # ws2) @ [if b = CHR ''x'' \<or> b = CHR ''X'' then CHR ''X'' else b]),
                Null (Some (NotFollowedByNumber (toupper c) [])))"
proof -
  have w: "ws2 = [] \<longrightarrow> NUL \<noteq> NUL" using assms(8) by simp
  have a: "parse_next_pair (Some (ws1 @ c # ws2 @ NUL # l)) =
             parse_value (ws1 @ c # ws2 @ NUL # l) (toupper c) (NUL # l)" for l
    by (rule parse_next_pair_word [OF assms(1-7) isspace_NUL w])
  have 1: "parse_next_pair (Some (c_str (ws1 @ c # ws2))) = Inl OutOfBounds"
    using a [of "[]"] by (simp add: c_str_def parse_value_at_terminator)
  have 2: "gcodep_parse_line p (Some (c_str (ws1 @ c # ws2))) = Some (Inl OutOfBounds)"
    by (rule gcodep_parse_line_fault [OF 1])
  have "parse_value ((ws1 @ c # ws2) @ [NUL, b]) (toupper c) [NUL, b] =
          Inr (Some ((ws1 @ c # ws2) @ [NUL, if b = CHR ''x'' \<or> b = CHR ''X'' then CHR ''X'' else b]),
               Null (Some (NotFollowedByNumber (toupper c) [])))"
    by (rule parse_value_behind_terminator)
  then have 3: "parse_next_pair (Some (c_str (ws1 @ c # ws2) @ [b])) =
           Inr (Some (c_str (ws1 @ c # ws2) @ [if b = CHR ''x'' \<or> b = CHR ''X'' then CHR ''X'' else b]),
                Null (Some (NotFollowedByNumber (toupper c) [])))"
    using a [of "[b]"] by (simp add: c_str_def)
  from 1 2 3 show ?thesis by blast
qed

theorem tokenizer_reads_behind_terminator_witness:
  "parse_next_pair (Some (c_str ''G '')) = Inl OutOfBounds \<and>
   gcodep_parse_line (new_recorder (\<lambda>letter v remaining. None)) (Some (c_str ''G '')) =
     Some (Inl OutOfBounds) \<and>
   parse_next_pair (Some (c_str ''G '' @ ''x'')) =
     Inr (Some (c_str ''G '' @ ''X''), Null (Some (NotFollowedByNumber (CHR ''G'') [])))"
  using tokenizer_reads_behind_terminator
    [of "[]" "CHR ''G''" "'' ''" "new_recorder (\<lambda>letter v remaining. None)" "CHR ''x''"]
  by (simp add: isspace_def toupper_def NUL_def)

section \<open>The hex workaround changes the line (claim C10)\<close>

lemma unprocessed_J0x1:
  "gcodep_parse_line p (Some (c_str ''J0x1'')) =
     gcodep_parse_line
       (p\<lparr>cb_userdata :=
            fst (unprocessed (callbacks p) (cb_userdata p) (CHR ''J'') (Finite 0) (c_str ''X1''))\<rparr>)
       (snd (unprocessed (callbacks p) (cb_userdata p) (CHR ''J'') (Finite 0) (c_str ''X1'')))"
proof -
  have t: "parse_next_pair (Some (c_str ''J0x1'')) =
             Inr (Some (c_str ''J0X1''), Parsed (CHR ''J'') (Finite 0) (c_str ''X1''))"
    by code_simp
  show ?thesis
    by (rule gcodep_parse_line_word [OF t]) (simp add: parse_line_body_def call_unprocessed_def)
qed

text \<open>
  C10. The hex workaround writes a terminator into the caller's line buffer and
  afterwards always stores an uppercase \<^verbatim>\<open>'X'\<close> there, whatever the byte was: for a word
  whose number field has \<^verbatim>\<open>'x'\<close> or \<^verbatim>\<open>'X'\<close> as its second character, the buffer the
  tokenizer leaves holds \<^verbatim>\<open>'X'\<close> at that place, and so does the remaining line it returns.
  On the line \<^verbatim>\<open>"J0x1"\<close> the \<open>unprocessed\<close> callback is called with the text \<^verbatim>\<open>"X1"\<close>, where
  the input had \<^verbatim>\<open>"x1"\<close>.
\<close>

theorem hex_workaround_stores_uppercase_X:
  assumes "list_all isspace ws1" and "\<not> isspace c" and "c \<noteq> NUL" and "c \<noteq> CHR '';''"
    and "c \<noteq> CHR ''%''" and "toupper c \<noteq> CHR ''*''" and "list_all isspace ws2"
    and "\<not> isspace n" and "n \<noteq> NUL" and "x = CHR ''x'' \<or> x = CHR ''X''"
  shows "parse_next_pair (Some (ws1 @ c # ws2 @ n # x # rest)) =
           (if isdigit n then
              Inr (Some (ws1 @ c # ws2 @ n # CHR ''X'' # rest),
                   Parsed (toupper c) (Finite (of_nat (digits_val 10 [n]))) (CHR ''X'' # rest))
            else
              (case string_at (n # CHR ''X'' # rest) of
                 None \<Rightarrow> Inl OutOfBounds
               | Some text \<Rightarrow>
                   Inr (Some (ws1 @ c # ws2 @ n # CHR ''X'' # rest),
                        Null (Some (NotFollowedByNumber (toupper c) text))))) \<and>
         gcodep_parse_line p (Some (c_str ''J0x1'')) =
           gcodep_parse_line
             (p\<lparr>cb_userdata :=
                  fst (unprocessed (callbacks p) (cb_userdata p) (CHR ''J'') (Finite 0)
                         (c_str ''X1''))\<rparr>)
             (snd (unprocessed (callbacks p) (cb_userdata p) (CHR ''J'') (Finite 0)
                     (c_str ''X1'')))"
  using parse_next_pair_repair [OF assms] unprocessed_J0x1 by blast

theorem hex_workaround_stores_uppercase_X_witness:
  "parse_next_pair (Some (c_str ''J0x1'')) =
     Inr (Some (c_str ''J0X1''), Parsed (CHR ''J'') (Finite 0) (c_str ''X1'')) \<and>
   c_str ''J0X1'' \<noteq> c_str ''J0x1'' \<and>
   map_option (map_sum id cb_userdata)
     (gcodep_parse_line (new_recorder (\<lambda>letter v remaining. None)) (Some (c_str ''J0x1''))) =
     Some (Inr [Unprocessed (CHR ''J'') (Finite 0) (c_str ''X1'')])"
  using hex_workaround_stores_uppercase_X
    [of "[]" "CHR ''J''" "[]" "CHR ''0''" "CHR ''x''" "c_str ''1''"
        "new_recorder (\<lambda>letter v remaining. None)"]
  by (simp add: isspace_def toupper_def NUL_def isdigit_def c_str_def digits_val_def hex_val_def
      gcodep_parse_line_NULL)

end
